theory Spec2Isabelle
  imports Main
begin

text \<open>
  A model of \<open>frog_registry.py\<close>: the key store (\<open>load_or_generate_key\<close>), the table
  \<open>frogs\<close> and the two handlers of the form, \<open>save_record\<close> and \<open>view_registry\<close>. The
  libraries the program calls are modelled as far as the program depends on them:
  Python's \<open>strip\<close>, \<open>encode\<close> and \<open>decode\<close> as functions, SQLite's table with its
  \<open>AUTOINCREMENT\<close> key as a list of rows of bytes, the Fernet cipher as a parameter.
  Reading or writing the key file and opening the database are taken to succeed.
\<close>

section \<open>Python values\<close>

text \<open>
  A Python \<open>str\<close> is a sequence of Unicode code points and a \<open>bytes\<close> object a sequence of
  octets. Both are lists of naturals here, so that \<open>len\<close>, \<open>strip\<close> and emptiness count
  what Python counts. A string literal of the source is written \<open>lit ''...''\<close>.
\<close>

type_synonym str = "nat list"
type_synonym bytes = "nat list"

definition lit :: "string \<Rightarrow> str" where
  "lit s = map of_char s"

text \<open>
  A raised exception is a value: its class and the text \<open>str(e)\<close> gives. The texts of the
  codec errors are shortened (Python adds the offending character and its position).
\<close>

datatype exn = Exn (exn_class: string) (exn_text: str)

subsection \<open>\<open>str.strip()\<close>\<close>

text \<open>
  \<open>s.strip()\<close> with no argument removes the leading and the trailing characters for which
  \<open>str.isspace\<close> holds. These are the code points Python counts as whitespace.
\<close>

definition isspace :: "nat \<Rightarrow> bool" where
  "isspace c \<longleftrightarrow>
     c \<in> {0x09, 0x0A, 0x0B, 0x0C, 0x0D, 0x1C, 0x1D, 0x1E, 0x1F, 0x20, 0x85, 0xA0, 0x1680,
          0x2000, 0x2001, 0x2002, 0x2003, 0x2004, 0x2005, 0x2006, 0x2007, 0x2008, 0x2009,
          0x200A, 0x2028, 0x2029, 0x202F, 0x205F, 0x3000}"

definition strip :: "str \<Rightarrow> str" where
  "strip s = rev (dropWhile isspace (rev (dropWhile isspace s)))"

subsection \<open>\<open>str.encode()\<close> and \<open>bytes.decode()\<close>\<close>

text \<open>
  Both default to UTF-8 with strict error handling: a surrogate code point cannot be
  encoded, and an ill-formed, overlong or out-of-range sequence cannot be decoded.
\<close>

definition utf8_char :: "nat \<Rightarrow> bytes option" where
  "utf8_char c =
     (if c < 0x80 then Some [c]
      else if c < 0x800 then Some [0xC0 + c div 64, 0x80 + c mod 64]
      else if 0xD800 \<le> c \<and> c < 0xE000 then None
      else if c < 0x10000 then
        Some [0xE0 + c div 4096, 0x80 + c div 64 mod 64, 0x80 + c mod 64]
      else if c < 0x110000 then
        Some [0xF0 + c div 262144, 0x80 + c div 4096 mod 64, 0x80 + c div 64 mod 64,
              0x80 + c mod 64]
      else None)"

fun encode :: "str \<Rightarrow> exn + bytes" where
  "encode [] = Inr []"
| "encode (c # cs) =
     (case utf8_char c of
        None \<Rightarrow> Inl (Exn ''UnicodeEncodeError'' (lit ''surrogates not allowed''))
      | Some bs \<Rightarrow> (case encode cs of Inl e \<Rightarrow> Inl e | Inr rest \<Rightarrow> Inr (bs @ rest)))"

definition cont :: "nat \<Rightarrow> bool" where
  "cont b \<longleftrightarrow> 0x80 \<le> b \<and> b < 0xC0"

text \<open>The first code point of a byte string and the bytes after it.\<close>

definition utf8_next :: "bytes \<Rightarrow> (nat \<times> bytes) option" where
  "utf8_next bs =
     (case bs of
        [] \<Rightarrow> None
      | b0 # r0 \<Rightarrow>
          if b0 < 0x80 then Some (b0, r0)
          else if 0xC2 \<le> b0 \<and> b0 < 0xE0 then
            (case r0 of
               b1 # r \<Rightarrow>
                 if cont b1 then Some ((b0 - 0xC0) * 64 + (b1 - 0x80), r) else None
             | _ \<Rightarrow> None)
          else if 0xE0 \<le> b0 \<and> b0 < 0xF0 then
            (case r0 of
               b1 # b2 # r \<Rightarrow>
                 (let c = (b0 - 0xE0) * 4096 + (b1 - 0x80) * 64 + (b2 - 0x80)
                  in if cont b1 \<and> cont b2 \<and> 0x800 \<le> c \<and> \<not> (0xD800 \<le> c \<and> c < 0xE000)
                     then Some (c, r) else None)
             | _ \<Rightarrow> None)
          else if 0xF0 \<le> b0 \<and> b0 < 0xF5 then
            (case r0 of
               b1 # b2 # b3 # r \<Rightarrow>
                 (let c = (b0 - 0xF0) * 262144 + (b1 - 0x80) * 4096 + (b2 - 0x80) * 64
                          + (b3 - 0x80)
                  in if cont b1 \<and> cont b2 \<and> cont b3 \<and> 0x10000 \<le> c \<and> c < 0x110000
                     then Some (c, r) else None)
             | _ \<Rightarrow> None)
          else None)"

function decode :: "bytes \<Rightarrow> exn + str" where
  "decode bs =
     (if bs = [] then Inr []
      else case utf8_next bs of
        None \<Rightarrow> Inl (Exn ''UnicodeDecodeError'' (lit ''invalid utf-8''))
      | Some (c, r) \<Rightarrow> (case decode r of Inl e \<Rightarrow> Inl e | Inr s \<Rightarrow> Inr (c # s)))"
  by pat_completeness auto
termination
proof (relation "measure length")
  show "wf (measure length)" by simp
next
  fix bs :: bytes and x2 c r
  assume "utf8_next bs = Some x2" and "(c, r) = x2"
  then have "utf8_next bs = Some (c, r)" by simp
  then have "length r < length bs"
    by (auto simp: utf8_next_def Let_def split: list.splits if_splits)
  then show "(r, bs) \<in> measure length" by simp
qed

declare decode.simps [simp del]

text \<open>The strings \<open>encode\<close> accepts.\<close>

definition encodable :: "str \<Rightarrow> bool" where
  "encodable s = (case encode s of Inl e \<Rightarrow> False | Inr b \<Rightarrow> True)"

section \<open>The \<open>cryptography.fernet\<close> interface\<close>

text \<open>
  The application uses four operations of the library: the constructor \<open>Fernet(key)\<close>, which
  raises \<open>ValueError\<close> on a key it does not accept; \<open>Fernet.generate_key()\<close>;
  \<open>encrypt\<close> and \<open>decrypt\<close>, the latter raising \<open>InvalidToken\<close>. They are parameters
  of the model. The random bytes and the clock that \<open>generate_key\<close> and \<open>encrypt\<close>
  consume are an argument (\<open>rnd\<close>), so that each operation is a function.
\<close>

record 'c fernet_api =
  Fernet :: "bytes \<Rightarrow> exn + 'c"
  generate_key :: "bytes \<Rightarrow> bytes"
  encrypt :: "'c \<Rightarrow> bytes \<Rightarrow> bytes \<Rightarrow> exn + bytes"
  decrypt :: "'c \<Rightarrow> bytes \<Rightarrow> exn + bytes"


section \<open>The table \<open>frogs\<close>\<close>

text \<open>
  One row per record, in the order of the primary key, as a full scan returns them. The
  four text columns hold what SQLite holds for a \<open>TEXT\<close> cell: bytes, the UTF-8 of the
  string that was bound, or whatever the file holds if it was damaged or written by
  something else. With \<open>INTEGER PRIMARY KEY AUTOINCREMENT\<close> SQLite keeps in
  \<open>sqlite_sequence\<close> the largest id the table has ever held (\<open>seq\<close>); a new row gets one
  more than the larger of \<open>seq\<close> and the ids present, but at least 1 on an empty table,
  and the insert fails once the largest 64-bit id has been used.
\<close>

record row =
  row_id :: int
  species_name :: bytes
  genus :: bytes
  habitat :: bytes
  conservation_status :: bytes

record table =
  rows :: "row list"
  seq :: int

definition max_rowid :: int where
  "max_rowid = 9223372036854775807"

definition largest_id :: "table \<Rightarrow> int" where
  "largest_id t =
     (if rows t = [] then max (seq t) 0 else fold max (map row_id (rows t)) (seq t))"

text \<open>\<open>CREATE TABLE IF NOT EXISTS frogs\<close> on a database that has the table or not.\<close>

definition create_table :: "table option \<Rightarrow> table" where
  "create_table db = (case db of None \<Rightarrow> \<lparr>rows = [], seq = 0\<rparr> | Some t \<Rightarrow> t)"

text \<open>
  \<open>INSERT INTO frogs (species_name, genus, habitat, conservation_status) VALUES (?, ?, ?, ?)\<close>
  followed by \<open>commit\<close>. Binding a \<open>str\<close> parameter converts it to UTF-8, which is what the
  cell then holds, and raises when the conversion fails.
\<close>

definition append_row :: "table \<Rightarrow> bytes \<Rightarrow> bytes \<Rightarrow> bytes \<Rightarrow> bytes \<Rightarrow> table" where
  "append_row t sp g h st =
     \<lparr>rows = rows t @ [\<lparr>row_id = largest_id t + 1, species_name = sp, genus = g, habitat = h,
                          conservation_status = st\<rparr>],
      seq = largest_id t + 1\<rparr>"

definition execute_insert :: "table \<Rightarrow> str \<Rightarrow> str \<Rightarrow> str \<Rightarrow> str \<Rightarrow> exn + table" where
  "execute_insert t sp g h st =
     (case encode sp of Inl e \<Rightarrow> Inl e | Inr sp' \<Rightarrow>
      case encode g of Inl e \<Rightarrow> Inl e | Inr g' \<Rightarrow>
      case encode h of Inl e \<Rightarrow> Inl e | Inr h' \<Rightarrow>
      case encode st of Inl e \<Rightarrow> Inl e | Inr st' \<Rightarrow>
        if max_rowid \<le> largest_id t
        then Inl (Exn ''OperationalError'' (lit ''database or disk is full''))
        else Inr (append_row t sp' g' h' st'))"

text \<open>
  \<open>cursor.execute("SELECT * FROM frogs")\<close> and \<open>cursor.fetchall()\<close>: every row as a tuple, its
  text cells converted to \<open>str\<close>. A cell that is not valid UTF-8 makes the call raise
  \<open>OperationalError\<close> (the text of the error is shortened), and no row is returned.
\<close>

definition column_text :: "bytes \<Rightarrow> exn + str" where
  "column_text b =
     (case decode b of
        Inl e \<Rightarrow> Inl (Exn ''OperationalError'' (lit ''Could not decode to UTF-8 column''))
      | Inr s \<Rightarrow> Inr s)"

definition fetch_row :: "row \<Rightarrow> exn + int \<times> str \<times> str \<times> str \<times> str" where
  "fetch_row r =
     (case column_text (species_name r) of Inl e \<Rightarrow> Inl e | Inr sp \<Rightarrow>
      case column_text (genus r) of Inl e \<Rightarrow> Inl e | Inr g \<Rightarrow>
      case column_text (habitat r) of Inl e \<Rightarrow> Inl e | Inr h \<Rightarrow>
      case column_text (conservation_status r) of Inl e \<Rightarrow> Inl e | Inr st \<Rightarrow>
        Inr (row_id r, sp, g, h, st))"

fun fetch_rows :: "row list \<Rightarrow> exn + (int \<times> str \<times> str \<times> str \<times> str) list" where
  "fetch_rows [] = Inr []"
| "fetch_rows (r # rs) =
     (case fetch_row r of Inl e \<Rightarrow> Inl e | Inr x \<Rightarrow>
      case fetch_rows rs of Inl e \<Rightarrow> Inl e | Inr xs \<Rightarrow> Inr (x # xs))"

definition fetchall :: "table \<Rightarrow> exn + (int \<times> str \<times> str \<times> str \<times> str) list" where
  "fetchall t = fetch_rows (rows t)"

text \<open>The tables that can be fetched: every text cell is valid UTF-8.\<close>

definition readable :: "table \<Rightarrow> bool" where
  "readable t = (case fetchall t of Inl e \<Rightarrow> False | Inr v \<Rightarrow> True)"

section \<open>The application\<close>

datatype dialog = Showerror str str | Showinfo str str

text \<open>
  The state of a \<open>FrogSpeciesRegistryApp\<close>: the cipher, the database connection (the table
  exists once \<open>__init__\<close> has run \<open>create_table\<close>), the contents of the three entries and of
  the combobox, and the message boxes shown so far.
\<close>

record 'c app =
  cipher :: 'c
  conn :: table
  species_entry :: str
  genus_entry :: str
  habitat_entry :: str
  status_combobox :: str
  dialogs :: "dialog list"

text \<open>The values the read-only combobox offers.\<close>

definition status_values :: "str list" where
  "status_values = [lit ''Least Concern'', lit ''Near Threatened'', lit ''Vulnerable'',
     lit ''Endangered'', lit ''Critically Endangered'', lit ''Extinct'']"

text \<open>
  \<open>load_or_generate_key\<close>: the files are a map from paths to contents. The result is the
  cipher or the exception of the constructor, and the files after the call.
\<close>

definition load_or_generate_key ::
  "'c fernet_api \<Rightarrow> bytes \<Rightarrow> string \<Rightarrow> (string \<rightharpoonup> bytes) \<Rightarrow> (exn + 'c) \<times> (string \<rightharpoonup> bytes)"
where
  "load_or_generate_key lib rnd key_file fs =
     (case fs key_file of
        Some key \<Rightarrow> (Fernet lib key, fs)
      | None \<Rightarrow> (let key = generate_key lib rnd in (Fernet lib key, fs(key_file \<mapsto> key))))"

text \<open>\<open>__init__\<close> without the layout of the widgets.\<close>

definition init ::
  "'c fernet_api \<Rightarrow> bytes \<Rightarrow> (string \<rightharpoonup> bytes) \<Rightarrow> table option
     \<Rightarrow> (exn + 'c app) \<times> (string \<rightharpoonup> bytes)"
where
  "init lib rnd fs db =
     (case load_or_generate_key lib rnd ''key.key'' fs of
        (Inl e, fs') \<Rightarrow> (Inl e, fs')
      | (Inr c, fs') \<Rightarrow>
          (Inr \<lparr>cipher = c, conn = create_table db, species_entry = [], genus_entry = [],
                habitat_entry = [], status_combobox = lit ''Least Concern'', dialogs = []\<rparr>,
           fs'))"

text \<open>\<open>self.cipher.encrypt(species_name.encode()).decode()\<close>, the body of the \<open>try\<close>.\<close>

definition encrypt_species :: "'c fernet_api \<Rightarrow> 'c \<Rightarrow> bytes \<Rightarrow> str \<Rightarrow> exn + str" where
  "encrypt_species lib c rnd s =
     (case encode s of Inl e \<Rightarrow> Inl e | Inr p \<Rightarrow>
      case encrypt lib c rnd p of Inl e \<Rightarrow> Inl e | Inr t \<Rightarrow> decode t)"

text \<open>
  \<open>save_record\<close>. \<open>Inr\<close> is the state when the handler returns; \<open>Inl\<close> is an exception that
  leaves the handler (the insert failed: nothing was written and no dialog shown). A
  message box is recorded in \<open>dialogs\<close>.
\<close>

definition showerror :: "str \<Rightarrow> str \<Rightarrow> 'c app \<Rightarrow> 'c app" where
  "showerror title message a = a\<lparr>dialogs := dialogs a @ [Showerror title message]\<rparr>"

definition showinfo :: "str \<Rightarrow> str \<Rightarrow> 'c app \<Rightarrow> 'c app" where
  "showinfo title message a = a\<lparr>dialogs := dialogs a @ [Showinfo title message]\<rparr>"

definition save_record :: "'c fernet_api \<Rightarrow> bytes \<Rightarrow> 'c app \<Rightarrow> exn + 'c app" where
  "save_record lib rnd a =
     (let sp = strip (species_entry a);
          g = strip (genus_entry a);
          h = strip (habitat_entry a);
          st = status_combobox a
      in if sp = [] \<or> g = [] \<or> h = [] \<or> st = [] then
           Inr (showerror (lit ''Error'') (lit ''All fields are required!'') a)
         else
           case encrypt_species lib (cipher a) rnd sp of
             Inl e \<Rightarrow>
               Inr (showerror (lit ''Error'') (lit ''Encryption failed: '' @ exn_text e) a)
           | Inr encrypted_species \<Rightarrow>
               (case execute_insert (conn a) encrypted_species g h st of
                  Inl e \<Rightarrow> Inl e
                | Inr t \<Rightarrow>
                    Inr ((showinfo (lit ''Success'')
                            (lit ''Frog species record saved successfully!'') (a\<lparr>conn := t\<rparr>))
                         \<lparr>species_entry := [], genus_entry := [], habitat_entry := [],
                          status_combobox := lit ''Least Concern''\<rparr>)))"

text \<open>\<open>self.cipher.decrypt(row[1].encode()).decode()\<close>, the body of the \<open>try\<close>.\<close>

definition decrypt_species :: "'c fernet_api \<Rightarrow> 'c \<Rightarrow> str \<Rightarrow> exn + str" where
  "decrypt_species lib c s =
     (case encode s of Inl e \<Rightarrow> Inl e | Inr t \<Rightarrow>
      case decrypt lib c t of Inl e \<Rightarrow> Inl e | Inr p \<Rightarrow> decode p)"

text \<open>
  \<open>view_registry\<close>: the rows are fetched first, outside the \<open>try\<close>, so an exception of the
  fetch leaves the handler (\<open>Inl\<close>) with nothing listed. Then one tuple per fetched row is
  inserted into the tree view; the \<open>try\<close> is around the decryption of that row only.
\<close>

definition view_row ::
  "'c fernet_api \<Rightarrow> 'c \<Rightarrow> int \<times> str \<times> str \<times> str \<times> str \<Rightarrow> int \<times> str \<times> str \<times> str \<times> str"
where
  "view_row lib c row =
     (case row of (row0, row1, row2, row3, row4) \<Rightarrow>
        (let decrypted_species =
               (case decrypt_species lib c row1 of
                  Inr s \<Rightarrow> s
                | Inl e \<Rightarrow> lit ''Decryption Error'')
         in (row0, decrypted_species, row2, row3, row4)))"

definition view_registry ::
  "'c fernet_api \<Rightarrow> 'c app \<Rightarrow> exn + (int \<times> str \<times> str \<times> str \<times> str) list"
where
  "view_registry lib a =
     (case fetchall (conn a) of
        Inl e \<Rightarrow> Inl e
      | Inr fetched \<Rightarrow> Inr (map (view_row lib (cipher a)) fetched))"

section \<open>Drivers\<close>

text \<open>The user fills the form.\<close>

definition fill :: "str \<Rightarrow> str \<Rightarrow> str \<Rightarrow> str \<Rightarrow> 'c app \<Rightarrow> 'c app" where
  "fill sp g h st a =
     a\<lparr>species_entry := sp, genus_entry := g, habitat_entry := h, status_combobox := st\<rparr>"

text \<open>
  The user fills the form and presses the save button, several times: one
  \<open>(rnd, species, genus, habitat, status)\<close> per press. An exception that leaves the handler
  is reported by the event loop, which goes on with the state as it was.
\<close>

fun save_records :: "'c fernet_api \<Rightarrow> 'c app \<Rightarrow> (bytes \<times> str \<times> str \<times> str \<times> str) list \<Rightarrow> 'c app"
where
  "save_records lib a [] = a"
| "save_records lib a ((rnd, sp, g, h, st) # rest) =
     (let filled = fill sp g h st a
      in case save_record lib rnd filled of
           Inl e \<Rightarrow> save_records lib filled rest
         | Inr a' \<Rightarrow> save_records lib a' rest)"

text \<open>The save button, then the view button.\<close>

definition save_then_view ::
  "'c fernet_api \<Rightarrow> bytes \<Rightarrow> 'c app \<Rightarrow> exn + (int \<times> str \<times> str \<times> str \<times> str) list"
where
  "save_then_view lib rnd a =
     (case save_record lib rnd a of Inl e \<Rightarrow> Inl e | Inr a' \<Rightarrow> view_registry lib a')"

text \<open>The application on a table that holds the rows \<open>rs\<close>.\<close>

definition with_rows :: "'c app \<Rightarrow> row list \<Rightarrow> 'c app" where
  "with_rows a rs = a\<lparr>conn := (conn a)\<lparr>rows := rs\<rparr>\<rparr>"

section \<open>An instance of the library interface\<close>

text \<open>
  A small instance on which the model runs on concrete inputs. It has the behaviour of
  the library at its interface and none of its secrecy: the constructor accepts exactly
  the keys of the shape \<open>generate_key\<close> produces (43 url-safe base64 characters and \<open>=\<close>)
  and raises \<open>ValueError\<close> otherwise; a token is ASCII and carries a tag of the key, one
  byte of the randomness and the plaintext; \<open>decrypt\<close> raises \<open>InvalidToken\<close> on a token
  that is malformed or carries the tag of another key.
\<close>

definition urlsafe :: "nat \<Rightarrow> bool" where
  "urlsafe b \<longleftrightarrow> (65 \<le> b \<and> b \<le> 90) \<or> (97 \<le> b \<and> b \<le> 122) \<or> (48 \<le> b \<and> b \<le> 57)
     \<or> b = 45 \<or> b = 95"

definition toy_key_ok :: "bytes \<Rightarrow> bool" where
  "toy_key_ok k \<longleftrightarrow> length k = 44 \<and> list_all urlsafe (take 43 k) \<and> drop 43 k = [61]"

definition b64char :: "nat \<Rightarrow> nat" where
  "b64char i = (if i < 26 then 65 + i else if i < 52 then 71 + i else if i < 62 then i - 4
                else if i = 62 then 45 else 95)"

definition toy_tag :: "bytes \<Rightarrow> nat" where
  "toy_tag k = sum_list k mod 256"

fun armor :: "bytes \<Rightarrow> bytes" where
  "armor [] = []"
| "armor (b # bs) = (64 + b div 16) # (64 + b mod 16) # armor bs"

fun unarmor :: "bytes \<Rightarrow> bytes option" where
  "unarmor [] = Some []"
| "unarmor [h] = None"
| "unarmor (h # l # r) =
     (if 64 \<le> h \<and> h < 80 \<and> 64 \<le> l \<and> l < 80 then
        (case unarmor r of None \<Rightarrow> None | Some bs \<Rightarrow> Some (((h - 64) * 16 + (l - 64)) # bs))
      else None)"

definition invalid_token :: exn where
  "invalid_token = Exn ''InvalidToken'' []"

definition toy_fernet :: "bytes fernet_api" where
  "toy_fernet =
     \<lparr>Fernet = (\<lambda>k. if toy_key_ok k then Inr k
                    else Inl (Exn ''ValueError''
                                (lit ''Fernet key must be 32 url-safe base64-encoded bytes.''))),
      generate_key = (\<lambda>rnd. map (\<lambda>b. b64char (b mod 64)) (take 43 (rnd @ replicate 43 0))
                              @ [61]),
      encrypt = (\<lambda>k rnd p. if list_all (\<lambda>b. b < 256) p
                   then Inr (armor (toy_tag k # (case rnd of [] \<Rightarrow> 0 | b # x \<Rightarrow> b mod 256) # p))
                   else Inl (Exn ''TypeError'' (lit ''data must be bytes''))),
      decrypt = (\<lambda>k t. case unarmor t of
                   Some (tag # iv # p) \<Rightarrow> if tag = toy_tag k then Inr p else Inl invalid_token
                 | _ \<Rightarrow> Inl invalid_token)\<rparr>"

definition toy_key :: bytes where
  "toy_key = replicate 43 65 @ [61]"

definition other_key :: bytes where
  "other_key = replicate 43 66 @ [61]"

text \<open>The application right after \<open>__init__\<close> on an empty database, with \<open>toy_key\<close>.\<close>

definition fresh_app :: "bytes app" where
  "fresh_app =
     \<lparr>cipher = toy_key, conn = \<lparr>rows = [], seq = 0\<rparr>, species_entry = [], genus_entry = [],
      habitat_entry = [], status_combobox = lit ''Least Concern'', dialogs = []\<rparr>"

text \<open>
  The application started with \<open>other_key\<close> on a table whose second row was written under
  \<open>toy_key\<close>: the key file was swapped in between. (The cells are ASCII, so the bytes of a
  cell are the code points of its text.)
\<close>

definition swapped_app :: "bytes app" where
  "swapped_app =
     \<lparr>cipher = other_key,
      conn = \<lparr>rows = [\<lparr>row_id = 1, species_name = lit ''EC@@DHGIFLFA'', genus = lit ''Hyla'',
                       habitat = lit ''Trees'', conservation_status = lit ''Least Concern''\<rparr>,
                     \<lparr>row_id = 2, species_name = lit ''BH@GEBFAFNFA'', genus = lit ''Rana'',
                       habitat = lit ''Pond'', conservation_status = lit ''Vulnerable''\<rparr>,
                     \<lparr>row_id = 3, species_name = lit ''EC@@DHGIFLFA'', genus = lit ''Hyla'',
                       habitat = lit ''Reeds'', conservation_status = lit ''Extinct''\<rparr>],
              seq = 3\<rparr>,
      species_entry = [], genus_entry = [], habitat_entry = [],
      status_combobox = lit ''Least Concern'', dialogs = []\<rparr>"

text \<open>
  The same table after damage to the file: the species cell of the second row holds two
  bytes that are not UTF-8.
\<close>

definition damaged_app :: "bytes app" where
  "damaged_app =
     with_rows swapped_app
       [\<lparr>row_id = 1, species_name = lit ''EC@@DHGIFLFA'', genus = lit ''Hyla'',
          habitat = lit ''Trees'', conservation_status = lit ''Least Concern''\<rparr>,
        \<lparr>row_id = 2, species_name = [0xFF, 0xFE], genus = lit ''Rana'',
          habitat = lit ''Pond'', conservation_status = lit ''Vulnerable''\<rparr>,
        \<lparr>row_id = 3, species_name = lit ''EC@@DHGIFLFA'', genus = lit ''Hyla'',
          habitat = lit ''Reeds'', conservation_status = lit ''Extinct''\<rparr>]"

section \<open>Properties of the codec\<close>

lemma utf8_next_Nil: "utf8_next [] = None"
  by (simp add: utf8_next_def)

lemma utf8_next_1: "b0 < 128 \<Longrightarrow> utf8_next (b0 # r) = Some (b0, r)"
  by (simp add: utf8_next_def)

lemma utf8_next_2:
  assumes "2 \<le> q" "q < 32" "m < 64"
  shows "utf8_next ((192 + q) # (128 + m) # r) = Some (q * 64 + m, r)"
  using assms by (simp add: utf8_next_def cont_def)

lemma utf8_next_3:
  assumes "q < 16" "m1 < 64" "m2 < 64" "2048 \<le> q * 4096 + m1 * 64 + m2"
    "\<not> (55296 \<le> q * 4096 + m1 * 64 + m2 \<and> q * 4096 + m1 * 64 + m2 < 57344)"
  shows "utf8_next ((224 + q) # (128 + m1) # (128 + m2) # r)
         = Some (q * 4096 + m1 * 64 + m2, r)"
  using assms by (simp add: utf8_next_def cont_def Let_def)

lemma utf8_next_4:
  assumes "q < 5" "m1 < 64" "m2 < 64" "m3 < 64"
    "65536 \<le> q * 262144 + m1 * 4096 + m2 * 64 + m3"
    "q * 262144 + m1 * 4096 + m2 * 64 + m3 < 1114112"
  shows "utf8_next ((240 + q) # (128 + m1) # (128 + m2) # (128 + m3) # r)
         = Some (q * 262144 + m1 * 4096 + m2 * 64 + m3, r)"
  using assms by (simp add: utf8_next_def cont_def Let_def)

lemma div_4096: "(c::nat) div 4096 = c div 64 div 64"
  using div_mult2_eq [of c 64 64] by simp

lemma div_262144: "(c::nat) div 262144 = c div 64 div 64 div 64"
  using div_mult2_eq [of c 4096 64] by (simp add: div_4096)

lemma split_4096: "(c::nat) = c div 4096 * 4096 + c div 64 mod 64 * 64 + c mod 64"
proof -
  define d where "d = c div 64"
  have "c = d * 64 + c mod 64" by (simp add: d_def)
  moreover have "d = d div 64 * 64 + d mod 64" by simp
  ultimately have "c = d div 64 * 4096 + d mod 64 * 64 + c mod 64" by linarith
  then show ?thesis by (simp add: div_4096 d_def)
qed

lemma split_262144:
  "(c::nat) = c div 262144 * 262144 + c div 4096 mod 64 * 4096 + c div 64 mod 64 * 64 + c mod 64"
proof -
  define d where "d = c div 64"
  define e where "e = d div 64"
  have "c = d * 64 + c mod 64" by (simp add: d_def)
  moreover have "d = e * 64 + d mod 64" by (simp add: e_def)
  moreover have "e = e div 64 * 64 + e mod 64" by simp
  ultimately have "c = e div 64 * 262144 + e mod 64 * 4096 + d mod 64 * 64 + c mod 64"
    by linarith
  then show ?thesis by (simp add: div_4096 div_262144 d_def e_def)
qed


lemma utf8_next_char:
  assumes "utf8_char c = Some bs"
  shows "utf8_next (bs @ rest) = Some (c, rest)"
proof -
  consider (a) "c < 128" | (b) "128 \<le> c" "c < 2048"
    | (s) "55296 \<le> c" "c < 57344"
    | (c) "2048 \<le> c" "c < 65536" "\<not> (55296 \<le> c \<and> c < 57344)"
    | (d) "65536 \<le> c" "c < 1114112" | (e) "1114112 \<le> c"
    by linarith
  then show ?thesis
  proof cases
    case a
    with assms have "bs = [c]" by (simp add: utf8_char_def)
    with a show ?thesis by (simp add: utf8_next_1)
  next
    case b
    with assms have bs: "bs = [192 + c div 64, 128 + c mod 64]"
      by (simp add: utf8_char_def)
    have "2 \<le> c div 64" "c div 64 < 32" "c mod 64 < 64" using b by simp_all
    then have "utf8_next ((192 + c div 64) # (128 + c mod 64) # rest)
        = Some (c div 64 * 64 + c mod 64, rest)"
      by (rule utf8_next_2)
    then show ?thesis using bs by simp
  next
    case s
    with assms show ?thesis by (simp add: utf8_char_def)
  next
    case c
    with assms have bs: "bs = [224 + c div 4096, 128 + c div 64 mod 64, 128 + c mod 64]"
      by (simp add: utf8_char_def)
    have eq: "c div 4096 * 4096 + c div 64 mod 64 * 64 + c mod 64 = c"
      using split_4096 [of c] by simp
    have "c div 4096 < 16" "c div 64 mod 64 < 64" "c mod 64 < 64" using c by simp_all
    moreover have "2048 \<le> c div 4096 * 4096 + c div 64 mod 64 * 64 + c mod 64"
      "\<not> (55296 \<le> c div 4096 * 4096 + c div 64 mod 64 * 64 + c mod 64
          \<and> c div 4096 * 4096 + c div 64 mod 64 * 64 + c mod 64 < 57344)"
      unfolding eq using c by simp_all
    ultimately have "utf8_next ((224 + c div 4096) # (128 + c div 64 mod 64)
          # (128 + c mod 64) # rest)
        = Some (c div 4096 * 4096 + c div 64 mod 64 * 64 + c mod 64, rest)"
      by (rule utf8_next_3)
    then show ?thesis unfolding eq using bs by simp
  next
    case d
    with assms have bs: "bs = [240 + c div 262144, 128 + c div 4096 mod 64,
        128 + c div 64 mod 64, 128 + c mod 64]"
      by (simp add: utf8_char_def)
    have eq: "c div 262144 * 262144 + c div 4096 mod 64 * 4096 + c div 64 mod 64 * 64
        + c mod 64 = c"
      using split_262144 [of c] by simp
    have "c div 262144 < 5" "c div 4096 mod 64 < 64" "c div 64 mod 64 < 64" "c mod 64 < 64"
      using d by simp_all
    moreover have "65536 \<le> c div 262144 * 262144 + c div 4096 mod 64 * 4096
        + c div 64 mod 64 * 64 + c mod 64"
      "c div 262144 * 262144 + c div 4096 mod 64 * 4096 + c div 64 mod 64 * 64 + c mod 64
        < 1114112"
      unfolding eq using d by simp_all
    ultimately have "utf8_next ((240 + c div 262144) # (128 + c div 4096 mod 64)
          # (128 + c div 64 mod 64) # (128 + c mod 64) # rest)
        = Some (c div 262144 * 262144 + c div 4096 mod 64 * 4096 + c div 64 mod 64 * 64
                + c mod 64, rest)"
      by (rule utf8_next_4)
    then show ?thesis unfolding eq using bs by simp
  next
    case e
    with assms show ?thesis by (simp add: utf8_char_def)
  qed
qed


lemma div_64_eq: "m < 64 \<Longrightarrow> (k * 64 + m) div 64 = (k::nat)"
  by simp

lemma mod_64_eq: "m < 64 \<Longrightarrow> (k * 64 + m) mod 64 = (m::nat)"
  by simp

lemma utf8_char_1: "c < 128 \<Longrightarrow> utf8_char c = Some [c]"
  by (simp add: utf8_char_def)

lemma utf8_char_2:
  assumes "2 \<le> q" "q < 32" "m < 64"
  shows "utf8_char (q * 64 + m) = Some [192 + q, 128 + m]"
proof -
  have "(q * 64 + m) div 64 = q" "(q * 64 + m) mod 64 = m" using assms by simp_all
  moreover have "\<not> q * 64 + m < 128" "q * 64 + m < 2048" using assms by simp_all
  ultimately show ?thesis by (simp add: utf8_char_def)
qed

lemma utf8_char_3:
  assumes "q < 16" "m1 < 64" "m2 < 64" "2048 \<le> q * 4096 + m1 * 64 + m2"
    "\<not> (55296 \<le> q * 4096 + m1 * 64 + m2 \<and> q * 4096 + m1 * 64 + m2 < 57344)"
  shows "utf8_char (q * 4096 + m1 * 64 + m2) = Some [224 + q, 128 + m1, 128 + m2]"
proof -
  define c where "c = q * 4096 + m1 * 64 + m2"
  have c64: "c = (q * 64 + m1) * 64 + m2" by (simp add: c_def)
  have d64: "c div 64 = q * 64 + m1" and m: "c mod 64 = m2"
    unfolding c64 using assms(3) by (rule div_64_eq, rule mod_64_eq)
  have "c div 4096 = q" "c div 64 mod 64 = m1"
    unfolding div_4096 d64 using assms(2) by (rule div_64_eq, rule mod_64_eq)
  moreover have "\<not> c < 128" "\<not> c < 2048" "c < 65536"
    using assms unfolding c_def by simp_all
  moreover have "\<not> (55296 \<le> c \<and> c < 57344)" using assms(5) unfolding c_def .
  ultimately have "utf8_char c = Some [224 + q, 128 + m1, 128 + m2]"
    using m by (simp add: utf8_char_def)
  then show ?thesis by (simp only: c_def)
qed

lemma utf8_char_4:
  assumes "q < 5" "m1 < 64" "m2 < 64" "m3 < 64"
    "65536 \<le> q * 262144 + m1 * 4096 + m2 * 64 + m3"
    "q * 262144 + m1 * 4096 + m2 * 64 + m3 < 1114112"
  shows "utf8_char (q * 262144 + m1 * 4096 + m2 * 64 + m3)
         = Some [240 + q, 128 + m1, 128 + m2, 128 + m3]"
proof -
  define c where "c = q * 262144 + m1 * 4096 + m2 * 64 + m3"
  have c64: "c = ((q * 64 + m1) * 64 + m2) * 64 + m3" by (simp add: c_def)
  have d64: "c div 64 = (q * 64 + m1) * 64 + m2" and m: "c mod 64 = m3"
    unfolding c64 using assms(4) by (rule div_64_eq, rule mod_64_eq)
  have d4096: "c div 4096 = q * 64 + m1" and mm: "c div 64 mod 64 = m2"
    unfolding div_4096 d64 using assms(3) by (rule div_64_eq, rule mod_64_eq)
  have "c div 64 div 64 div 64 = q" "c div 64 div 64 mod 64 = m1"
    unfolding div_4096 [symmetric] d4096 using assms(2) by (rule div_64_eq, rule mod_64_eq)
  then have "c div 262144 = q" "c div 4096 mod 64 = m1"
    unfolding div_262144 div_4096 .
  moreover have "\<not> c < 128" "\<not> c < 2048" "\<not> c < 65536" "c < 1114112"
    "\<not> (55296 \<le> c \<and> c < 57344)"
    using assms unfolding c_def by simp_all
  ultimately have "utf8_char c = Some [240 + q, 128 + m1, 128 + m2, 128 + m3]"
    using m mm by (simp add: utf8_char_def)
  then show ?thesis by (simp only: c_def)
qed


lemma utf8_next_range_2:
  "194 \<le> b0 \<Longrightarrow> b0 < 224 \<Longrightarrow>
   utf8_next (b0 # r0) =
     (case r0 of
        b1 # r \<Rightarrow> if cont b1 then Some ((b0 - 192) * 64 + (b1 - 128), r) else None
      | _ \<Rightarrow> None)"
  by (simp add: utf8_next_def)

lemma utf8_next_range_3:
  "224 \<le> b0 \<Longrightarrow> b0 < 240 \<Longrightarrow>
   utf8_next (b0 # r0) =
     (case r0 of
        b1 # b2 # r \<Rightarrow>
          (let c = (b0 - 224) * 4096 + (b1 - 128) * 64 + (b2 - 128)
           in if cont b1 \<and> cont b2 \<and> 2048 \<le> c \<and> \<not> (55296 \<le> c \<and> c < 57344)
              then Some (c, r) else None)
      | _ \<Rightarrow> None)"
  by (simp add: utf8_next_def)

lemma utf8_next_range_4:
  "240 \<le> b0 \<Longrightarrow> b0 < 245 \<Longrightarrow>
   utf8_next (b0 # r0) =
     (case r0 of
        b1 # b2 # b3 # r \<Rightarrow>
          (let c = (b0 - 240) * 262144 + (b1 - 128) * 4096 + (b2 - 128) * 64 + (b3 - 128)
           in if cont b1 \<and> cont b2 \<and> cont b3 \<and> 65536 \<le> c \<and> c < 1114112
              then Some (c, r) else None)
      | _ \<Rightarrow> None)"
  by (simp add: utf8_next_def)

lemma utf8_next_range_bad:
  "128 \<le> b0 \<Longrightarrow> b0 < 194 \<or> 245 \<le> b0 \<Longrightarrow> utf8_next (b0 # r0) = None"
  by (auto simp add: utf8_next_def)

lemma cont_split: "cont b \<Longrightarrow> b = 128 + (b - 128) \<and> b - 128 < 64"
  by (auto simp: cont_def)

lemma utf8_char_next:
  assumes "utf8_next bs = Some (c, r)"
  shows "\<exists>cs. utf8_char c = Some cs \<and> bs = cs @ r"
proof (cases bs)
  case Nil
  with assms show ?thesis by (simp add: utf8_next_Nil)
next
  case (Cons b0 r0)
  consider (a) "b0 < 128" | (b) "194 \<le> b0" "b0 < 224" | (c) "224 \<le> b0" "b0 < 240"
    | (d) "240 \<le> b0" "b0 < 245" | (e) "128 \<le> b0" "b0 < 194 \<or> 245 \<le> b0"
    by linarith
  then show ?thesis
  proof cases
    case a
    with assms Cons have "c = b0" "r = r0" by (simp_all add: utf8_next_1)
    with a Cons show ?thesis by (simp add: utf8_char_1)
  next
    case b
    from assms Cons obtain b1 where r0: "r0 = b1 # r" and b1: "cont b1"
      and c: "c = (b0 - 192) * 64 + (b1 - 128)"
      by (auto simp: utf8_next_range_2 [OF b] split: list.splits if_splits)
    have "2 \<le> b0 - 192" "b0 - 192 < 32" using b by simp_all
    moreover have "b1 - 128 < 64" using cont_split [OF b1] by simp
    ultimately have "utf8_char ((b0 - 192) * 64 + (b1 - 128))
        = Some [192 + (b0 - 192), 128 + (b1 - 128)]"
      by (rule utf8_char_2)
    moreover have "192 + (b0 - 192) = b0" using b by simp
    moreover have "128 + (b1 - 128) = b1" using cont_split [OF b1] by simp
    ultimately show ?thesis using Cons r0 c by simp
  next
    case c
    from assms Cons obtain b1 b2 where r0: "r0 = b1 # b2 # r" and b1: "cont b1"
      and b2: "cont b2"
      and cc: "c = (b0 - 224) * 4096 + (b1 - 128) * 64 + (b2 - 128)"
      and lo: "2048 \<le> (b0 - 224) * 4096 + (b1 - 128) * 64 + (b2 - 128)"
      and sur: "\<not> (55296 \<le> (b0 - 224) * 4096 + (b1 - 128) * 64 + (b2 - 128)
                \<and> (b0 - 224) * 4096 + (b1 - 128) * 64 + (b2 - 128) < 57344)"
      by (auto simp: utf8_next_range_3 [OF c] Let_def split: list.splits if_splits)
    have "b0 - 224 < 16" using c by simp
    moreover have "b1 - 128 < 64" "b2 - 128 < 64"
      using cont_split [OF b1] cont_split [OF b2] by simp_all
    ultimately have "utf8_char ((b0 - 224) * 4096 + (b1 - 128) * 64 + (b2 - 128))
        = Some [224 + (b0 - 224), 128 + (b1 - 128), 128 + (b2 - 128)]"
      using lo sur by (rule utf8_char_3)
    moreover have "224 + (b0 - 224) = b0" using c by simp
    moreover have "128 + (b1 - 128) = b1" "128 + (b2 - 128) = b2"
      using cont_split [OF b1] cont_split [OF b2] by simp_all
    ultimately show ?thesis using Cons r0 cc by simp
  next
    case d
    from assms Cons obtain b1 b2 b3 where r0: "r0 = b1 # b2 # b3 # r" and b1: "cont b1"
      and b2: "cont b2" and b3: "cont b3"
      and cc: "c = (b0 - 240) * 262144 + (b1 - 128) * 4096 + (b2 - 128) * 64 + (b3 - 128)"
      and lo: "65536 \<le> (b0 - 240) * 262144 + (b1 - 128) * 4096 + (b2 - 128) * 64 + (b3 - 128)"
      and hi: "(b0 - 240) * 262144 + (b1 - 128) * 4096 + (b2 - 128) * 64 + (b3 - 128) < 1114112"
      by (auto simp: utf8_next_range_4 [OF d] Let_def split: list.splits if_splits)
    have "b0 - 240 < 5" using d by simp
    moreover have "b1 - 128 < 64" "b2 - 128 < 64" "b3 - 128 < 64"
      using cont_split [OF b1] cont_split [OF b2] cont_split [OF b3] by simp_all
    ultimately have "utf8_char ((b0 - 240) * 262144 + (b1 - 128) * 4096 + (b2 - 128) * 64
          + (b3 - 128))
        = Some [240 + (b0 - 240), 128 + (b1 - 128), 128 + (b2 - 128), 128 + (b3 - 128)]"
      using lo hi by (rule utf8_char_4)
    moreover have "240 + (b0 - 240) = b0" using d by simp
    moreover have "128 + (b1 - 128) = b1" "128 + (b2 - 128) = b2" "128 + (b3 - 128) = b3"
      using cont_split [OF b1] cont_split [OF b2] cont_split [OF b3] by simp_all
    ultimately show ?thesis using Cons r0 cc by simp
  next
    case e
    with assms Cons show ?thesis by (simp add: utf8_next_range_bad)
  qed
qed

lemma utf8_char_nonempty: "utf8_char c = Some bs \<Longrightarrow> bs \<noteq> []"
  by (auto simp: utf8_char_def split: if_splits)




lemma decode_Nil: "decode [] = Inr []"
  by (simp add: decode.simps)

lemma decode_next:
  "utf8_next bs = Some (c, r) \<Longrightarrow>
   decode bs = (case decode r of Inl e \<Rightarrow> Inl e | Inr s \<Rightarrow> Inr (c # s))"
  by (subst decode.simps) (auto simp: utf8_next_Nil)

lemma decode_Cons_ascii:
  "b < 128 \<Longrightarrow> decode (b # bs) = (case decode bs of Inl e \<Rightarrow> Inl e | Inr s \<Rightarrow> Inr (b # s))"
  by (simp add: decode_next utf8_next_1)




lemma decode_encode: "encode s = Inr p \<Longrightarrow> decode p = Inr s"
proof (induction s arbitrary: p)
  case Nil
  then show ?case by (simp add: decode_Nil)
next
  case (Cons c cs)
  then obtain bs rest where c: "utf8_char c = Some bs" and r: "encode cs = Inr rest"
    and p: "p = bs @ rest"
    by (auto split: option.splits sum.splits)
  have "decode rest = Inr cs" using Cons.IH r by simp
  then show ?case using utf8_next_char [OF c, of rest] p by (simp add: decode_next)
qed

lemma encode_decode: "decode p = Inr s \<Longrightarrow> encode s = Inr p"
proof (induction p arbitrary: s rule: decode.induct)
  case (1 bs)
  show ?case
  proof (cases "bs = []")
    case True
    with "1.prems" show ?thesis by (simp add: decode_Nil)
  next
    case False
    with "1.prems" obtain c r s' where n: "utf8_next bs = Some (c, r)"
      and d: "decode r = Inr s'" and s: "s = c # s'"
      by (subst (asm) decode.simps) (auto split: option.splits sum.splits)
    have "encode s' = Inr r" using "1.IH" [OF False n refl d] .
    moreover obtain cs where "utf8_char c = Some cs" "bs = cs @ r"
      using utf8_char_next [OF n] by blast
    ultimately show ?thesis using s by simp
  qed
qed

section \<open>Stripping and row identifiers\<close>

lemma strip_Nil: "strip [] = []"
  by (simp add: strip_def)

lemma dropWhile_all_iff: "(\<forall>x\<in>set (dropWhile P s). P x) \<longleftrightarrow> dropWhile P s = []"
proof
  assume all: "\<forall>x\<in>set (dropWhile P s). P x"
  show "dropWhile P s = []"
  proof (rule ccontr)
    assume ne: "dropWhile P s \<noteq> []"
    then have "\<not> P (hd (dropWhile P s))" by (rule hd_dropWhile)
    moreover have "hd (dropWhile P s) \<in> set (dropWhile P s)" using ne by simp
    ultimately show False using all by blast
  qed
qed (auto dest: set_dropWhileD)

lemma strip_eq_Nil_iff: "strip s = [] \<longleftrightarrow> list_all isspace s"
proof -
  have "strip s = [] \<longleftrightarrow> (\<forall>x\<in>set (dropWhile isspace s). isspace x)"
    by (simp add: strip_def dropWhile_eq_Nil_conv)
  also have "\<dots> \<longleftrightarrow> dropWhile isspace s = []" by (rule dropWhile_all_iff)
  also have "\<dots> \<longleftrightarrow> list_all isspace s" by (simp add: dropWhile_eq_Nil_conv list_all_iff)
  finally show ?thesis .
qed


lemma strip_decomp:
  "\<exists>pre suf. s = pre @ strip s @ suf \<and> list_all isspace pre \<and> list_all isspace suf"
proof -
  define m where "m = dropWhile isspace s"
  have s: "s = takeWhile isspace s @ m" by (simp add: m_def)
  have "rev m = takeWhile isspace (rev m) @ dropWhile isspace (rev m)" by simp
  then have "m = rev (dropWhile isspace (rev m)) @ rev (takeWhile isspace (rev m))"
    by (metis rev_append rev_rev_ident)
  then have m: "m = strip s @ rev (takeWhile isspace (rev m))"
    by (simp add: strip_def m_def)
  have "s = takeWhile isspace s @ strip s @ rev (takeWhile isspace (rev m))"
    using s m by metis
  moreover have "list_all isspace (takeWhile isspace s)"
    by (simp add: list_all_iff) (metis set_takeWhileD)
  moreover have "list_all isspace (rev (takeWhile isspace (rev m)))"
    by (simp add: list_all_iff) (metis set_takeWhileD)
  ultimately show ?thesis by blast
qed

lemma strip_ends:
  assumes "strip s \<noteq> []"
  shows "\<not> isspace (hd (strip s)) \<and> \<not> isspace (last (strip s))"
proof -
  define m where "m = dropWhile isspace s"
  define k where "k = dropWhile isspace (rev m)"
  have st: "strip s = rev k" by (simp add: strip_def k_def m_def)
  with assms have kne: "k \<noteq> []" by simp
  then have "\<not> isspace (hd k)" unfolding k_def by (rule hd_dropWhile)
  then have l: "\<not> isspace (last (strip s))" using kne st by (simp add: last_rev)
  have mne: "m \<noteq> []" using kne by (auto simp: k_def)
  then have hm: "\<not> isspace (hd m)" unfolding m_def by (rule hd_dropWhile)
  obtain suf where "rev m = suf @ k" unfolding k_def
    by (metis takeWhile_dropWhile_id)
  then have "m = rev k @ rev suf" by (metis rev_append rev_rev_ident)
  then have "hd m = hd (rev k)" using kne by simp
  then show ?thesis using hm l st by simp
qed

lemma encodable_iff: "encodable s \<longleftrightarrow> (\<exists>p. encode s = Inr p)"
  by (cases "encode s") (simp_all add: encodable_def)

lemma encodable_decoded: "decode t = Inr s \<Longrightarrow> encodable s"
  by (simp add: encodable_iff encode_decode)

lemma fold_max_ge: "(s::int) \<le> fold max xs s"
  by (induction xs arbitrary: s) (auto intro: order_trans [OF max.cobounded2])

lemma fold_max_ge_elem: "x \<in> set xs \<Longrightarrow> (x::int) \<le> fold max xs s"
proof (induction xs arbitrary: s)
  case Nil
  then show ?case by simp
next
  case (Cons y ys)
  show ?case
  proof (cases "x = y")
    case True
    have "y \<le> max y s" by simp
    also have "\<dots> \<le> fold max ys (max y s)" by (rule fold_max_ge)
    finally show ?thesis using True by simp
  next
    case False
    with Cons show ?thesis by simp
  qed
qed

lemma largest_id_ge_seq: "seq t \<le> largest_id t"
  by (simp add: largest_id_def fold_max_ge)

lemma first_id_on_empty_table: "rows t = [] \<Longrightarrow> seq t \<le> 0 \<Longrightarrow> largest_id t + 1 = 1"
  by (simp add: largest_id_def)

lemma largest_id_ge_row: "r \<in> set (rows t) \<Longrightarrow> row_id r \<le> largest_id t"
  by (auto simp: largest_id_def fold_max_ge_elem)

section \<open>The key store\<close>

lemma toy_key_ok_toy_key: "toy_key_ok toy_key"
  by code_simp

lemma toy_key_ok_Nil: "\<not> toy_key_ok []"
  by (simp add: toy_key_ok_def)

lemma b64char_urlsafe: "i < 64 \<Longrightarrow> urlsafe (b64char i)"
  by (auto simp: b64char_def urlsafe_def)

lemma toy_generate_key_ok: "toy_key_ok (generate_key toy_fernet rnd)"
proof -
  define body where "body = map (\<lambda>b. b64char (b mod 64)) (take 43 (rnd @ replicate 43 0))"
  have len: "length body = 43" by (simp add: body_def min_def)
  have all: "list_all urlsafe body"
    by (auto simp: body_def list_all_iff intro!: b64char_urlsafe)
  have "generate_key toy_fernet rnd = body @ [61]" by (simp add: toy_fernet_def body_def)
  then show ?thesis using len all by (simp add: toy_key_ok_def)
qed

lemma create_table_idempotent: "create_table (Some (create_table db)) = create_table db"
  by (simp add: create_table_def)

lemma init_fresh_app:
  "init toy_fernet rnd [''key.key'' \<mapsto> toy_key] None
     = (Inr fresh_app, [''key.key'' \<mapsto> toy_key])"
  by (simp add: init_def load_or_generate_key_def toy_fernet_def toy_key_ok_toy_key
      create_table_def fresh_app_def)

text \<open>
  C4. Whatever the files hold before the first call of \<open>load_or_generate_key\<close>, the key
  file exists after it and holds the bytes \<open>key\<close> from which the call built its result;
  every later call on the same path reads those bytes, returns the same result and
  leaves the files as they are.
\<close>

theorem load_or_generate_key_stable:
  "case load_or_generate_key lib rnd key_file fs of
     (c1, fs1) \<Rightarrow>
       load_or_generate_key lib rnd' key_file fs1 = (c1, fs1)
       \<and> (\<exists>key. fs1 key_file = Some key \<and> c1 = Fernet lib key)"
  by (simp add: load_or_generate_key_def Let_def split: option.splits)

theorem load_or_generate_key_stable_witness:
  "case load_or_generate_key toy_fernet [1, 2, 3] ''key.key'' Map.empty of
     (c1, fs1) \<Rightarrow>
       c1 = Inr (generate_key toy_fernet [1, 2, 3])
       \<and> fs1 ''key.key'' = Some (generate_key toy_fernet [1, 2, 3])
       \<and> load_or_generate_key toy_fernet [9] ''key.key'' fs1 = (c1, fs1)"
proof -
  define k where "k = generate_key toy_fernet [1, 2, 3]"
  have ok: "Fernet toy_fernet k = Inr k"
    using toy_generate_key_ok [of "[1, 2, 3]"] by (simp add: k_def toy_fernet_def)
  have first: "load_or_generate_key toy_fernet [1, 2, 3] ''key.key'' Map.empty
      = (Inr k, [''key.key'' \<mapsto> k])"
    using ok by (simp add: load_or_generate_key_def Let_def k_def)
  have "load_or_generate_key toy_fernet [9] ''key.key'' [''key.key'' \<mapsto> k]
      = (Inr k, [''key.key'' \<mapsto> k])"
    using load_or_generate_key_stable
      [where lib = toy_fernet and rnd = "[1, 2, 3]" and key_file = "''key.key''"
         and fs = Map.empty and rnd' = "[9]"]
    unfolding first by simp
  then show ?thesis using first by (simp add: k_def)
qed

text \<open>
  C6, as the code has it. When the key file exists, \<open>load_or_generate_key\<close> checks nothing
  itself: it hands the bytes of the file to the constructor \<open>Fernet\<close> and leaves the file
  alone. Its result is the constructor's: the cipher, or the constructor's exception.
\<close>

theorem load_or_generate_key_existing:
  "fs key_file = Some key \<Longrightarrow>
   load_or_generate_key lib rnd key_file fs = (Fernet lib key, fs)"
  by (simp add: load_or_generate_key_def)

theorem load_or_generate_key_existing_witness:
  "load_or_generate_key toy_fernet [] ''key.key'' [''key.key'' \<mapsto> toy_key]
     = (Inr toy_key, [''key.key'' \<mapsto> toy_key])"
  using load_or_generate_key_existing [of "[''key.key'' \<mapsto> toy_key]" "''key.key''" toy_key
      toy_fernet "[]"]
  by (simp add: toy_fernet_def toy_key_ok_toy_key)

text \<open>
  C6 as stated fails: a key file truncated to nothing is not accepted at load time. The
  constructor, called inside \<open>load_or_generate_key\<close>, raises \<open>ValueError\<close>, so the call
  itself fails.
\<close>

theorem truncated_key_rejected_at_load:
  "fst (load_or_generate_key toy_fernet [] ''key.key'' [''key.key'' \<mapsto> []])
     = Inl (Exn ''ValueError'' (lit ''Fernet key must be 32 url-safe base64-encoded bytes.''))"
  by (simp add: load_or_generate_key_def toy_fernet_def toy_key_ok_Nil)

section \<open>The save handler, case by case\<close>

lemma execute_insert_ok:
  assumes "encode sp = Inr bsp" "encode g = Inr bg" "encode h = Inr bh" "encode st = Inr bst"
    and "largest_id t < max_rowid"
  shows "execute_insert t sp g h st = Inr (append_row t bsp bg bh bst)"
  using assms by (simp add: execute_insert_def)

lemma execute_insert_Inr:
  assumes "execute_insert t sp g h st = Inr t'"
  shows "\<exists>bsp bg bh bst. encode sp = Inr bsp \<and> encode g = Inr bg \<and> encode h = Inr bh
           \<and> encode st = Inr bst \<and> t' = append_row t bsp bg bh bst"
  using assms by (auto simp: execute_insert_def split: sum.splits if_splits)

lemma save_record_invalid:
  assumes "strip (species_entry a) = [] \<or> strip (genus_entry a) = []
           \<or> strip (habitat_entry a) = [] \<or> status_combobox a = []"
  shows "save_record lib rnd a
         = Inr (showerror (lit ''Error'') (lit ''All fields are required!'') a)"
  using assms by (auto simp: save_record_def Let_def)

lemma save_record_encrypt_failed:
  assumes "strip (species_entry a) \<noteq> []" "strip (genus_entry a) \<noteq> []"
    "strip (habitat_entry a) \<noteq> []" "status_combobox a \<noteq> []"
    and "encrypt_species lib (cipher a) rnd (strip (species_entry a)) = Inl e"
  shows "save_record lib rnd a
         = Inr (showerror (lit ''Error'') (lit ''Encryption failed: '' @ exn_text e) a)"
  using assms by (simp add: save_record_def Let_def)

lemma save_record_insert:
  assumes "strip (species_entry a) \<noteq> []" "strip (genus_entry a) \<noteq> []"
    "strip (habitat_entry a) \<noteq> []" "status_combobox a \<noteq> []"
    and "encrypt_species lib (cipher a) rnd (strip (species_entry a)) = Inr tok"
  shows "save_record lib rnd a =
     (case execute_insert (conn a) tok (strip (genus_entry a)) (strip (habitat_entry a))
             (status_combobox a) of
        Inl e \<Rightarrow> Inl e
      | Inr t \<Rightarrow>
          Inr ((showinfo (lit ''Success'') (lit ''Frog species record saved successfully!'')
                  (a\<lparr>conn := t\<rparr>))
               \<lparr>species_entry := [], genus_entry := [], habitat_entry := [],
                status_combobox := lit ''Least Concern''\<rparr>))"
  using assms by (simp add: save_record_def Let_def)

lemma encrypt_species_encodable: "encrypt_species lib c rnd s = Inr tok \<Longrightarrow> encodable tok"
  by (auto simp: encrypt_species_def split: sum.splits dest: encodable_decoded)

text \<open>The row that a save writes, as it is fetched.\<close>

lemma fetch_row_encoded:
  assumes "encode sp = Inr bsp" "encode g = Inr bg" "encode h = Inr bh" "encode st = Inr bst"
  shows "fetch_row \<lparr>row_id = i, species_name = bsp, genus = bg, habitat = bh,
                     conservation_status = bst\<rparr> = Inr (i, sp, g, h, st)"
  using assms by (simp add: fetch_row_def column_text_def decode_encode)

lemma fetch_row_Inr:
  assumes "fetch_row r = Inr (i, sp, g, h, st)"
  shows "i = row_id r \<and> encode sp = Inr (species_name r) \<and> encode g = Inr (genus r)
         \<and> encode h = Inr (habitat r) \<and> encode st = Inr (conservation_status r)"
  using assms
  by (auto simp: fetch_row_def column_text_def split: sum.splits dest: encode_decode)

lemma save_record_saved:
  assumes "strip (species_entry a) \<noteq> []" "strip (genus_entry a) \<noteq> []"
    "strip (habitat_entry a) \<noteq> []" "status_combobox a \<noteq> []"
    and "encrypt_species lib (cipher a) rnd (strip (species_entry a)) = Inr tok"
    and "encodable (strip (genus_entry a))" "encodable (strip (habitat_entry a))"
    "encodable (status_combobox a)"
    and "largest_id (conn a) < max_rowid"
  shows "\<exists>bsp bg bh bst.
     encode tok = Inr bsp \<and> encode (strip (genus_entry a)) = Inr bg
     \<and> encode (strip (habitat_entry a)) = Inr bh \<and> encode (status_combobox a) = Inr bst
     \<and> save_record lib rnd a =
         Inr ((showinfo (lit ''Success'') (lit ''Frog species record saved successfully!'')
                 (a\<lparr>conn := append_row (conn a) bsp bg bh bst\<rparr>))
              \<lparr>species_entry := [], genus_entry := [], habitat_entry := [],
               status_combobox := lit ''Least Concern''\<rparr>)"
proof -
  obtain bsp where 1: "encode tok = Inr bsp"
    using encrypt_species_encodable [OF assms(5)] by (auto simp: encodable_iff)
  obtain bg bh bst where 2: "encode (strip (genus_entry a)) = Inr bg"
    "encode (strip (habitat_entry a)) = Inr bh" "encode (status_combobox a) = Inr bst"
    using assms(6-8) by (auto simp: encodable_iff)
  have "execute_insert (conn a) tok (strip (genus_entry a)) (strip (habitat_entry a))
          (status_combobox a) = Inr (append_row (conn a) bsp bg bh bst)"
    using 1 2 assms(9) by (rule execute_insert_ok)
  then show ?thesis using 1 2 assms(1-5) by (simp add: save_record_insert)
qed

text \<open>The three ways in which the handler returns.\<close>

lemma save_record_Inr:
  assumes "save_record lib rnd a = Inr a'"
  shows "a' = showerror (lit ''Error'') (lit ''All fields are required!'') a
    \<or> (\<exists>e. encrypt_species lib (cipher a) rnd (strip (species_entry a)) = Inl e
          \<and> a' = showerror (lit ''Error'') (lit ''Encryption failed: '' @ exn_text e) a)
    \<or> (\<exists>tok bsp bg bh bst.
          encrypt_species lib (cipher a) rnd (strip (species_entry a)) = Inr tok
          \<and> strip (species_entry a) \<noteq> [] \<and> strip (genus_entry a) \<noteq> []
          \<and> strip (habitat_entry a) \<noteq> [] \<and> status_combobox a \<noteq> []
          \<and> encode tok = Inr bsp \<and> encode (strip (genus_entry a)) = Inr bg
          \<and> encode (strip (habitat_entry a)) = Inr bh \<and> encode (status_combobox a) = Inr bst
          \<and> a' = (showinfo (lit ''Success'') (lit ''Frog species record saved successfully!'')
                    (a\<lparr>conn := append_row (conn a) bsp bg bh bst\<rparr>))
                 \<lparr>species_entry := [], genus_entry := [], habitat_entry := [],
                  status_combobox := lit ''Least Concern''\<rparr>)"
proof (cases "strip (species_entry a) = [] \<or> strip (genus_entry a) = []
           \<or> strip (habitat_entry a) = [] \<or> status_combobox a = []")
  case True
  with assms show ?thesis by (simp add: save_record_invalid)
next
  case False
  then have ne: "strip (species_entry a) \<noteq> []" "strip (genus_entry a) \<noteq> []"
    "strip (habitat_entry a) \<noteq> []" "status_combobox a \<noteq> []" by simp_all
  show ?thesis
  proof (cases "encrypt_species lib (cipher a) rnd (strip (species_entry a))")
    case (Inl e)
    with assms ne show ?thesis by (simp add: save_record_encrypt_failed)
  next
    case (Inr tok)
    from assms ne Inr obtain t where t: "execute_insert (conn a) tok (strip (genus_entry a))
        (strip (habitat_entry a)) (status_combobox a) = Inr t"
      and a': "a' = (showinfo (lit ''Success'') (lit ''Frog species record saved successfully!'')
                    (a\<lparr>conn := t\<rparr>))
                 \<lparr>species_entry := [], genus_entry := [], habitat_entry := [],
                  status_combobox := lit ''Least Concern''\<rparr>"
      by (auto simp: save_record_insert split: sum.splits)
    from execute_insert_Inr [OF t] obtain bsp bg bh bst where
      "encode tok = Inr bsp" "encode (strip (genus_entry a)) = Inr bg"
      "encode (strip (habitat_entry a)) = Inr bh" "encode (status_combobox a) = Inr bst"
      "t = append_row (conn a) bsp bg bh bst" by blast
    with a' Inr ne show ?thesis by blast
  qed
qed

lemma save_record_conn:
  assumes "save_record lib rnd a = Inr a'"
  shows "conn a' = conn a
    \<or> (\<exists>tok bsp bg bh bst.
          encrypt_species lib (cipher a) rnd (strip (species_entry a)) = Inr tok
          \<and> encode tok = Inr bsp \<and> encode (strip (genus_entry a)) = Inr bg
          \<and> encode (strip (habitat_entry a)) = Inr bh \<and> encode (status_combobox a) = Inr bst
          \<and> conn a' = append_row (conn a) bsp bg bh bst)"
proof -
  from save_record_Inr [OF assms] consider
    (v) "a' = showerror (lit ''Error'') (lit ''All fields are required!'') a"
  | (e) e where "a' = showerror (lit ''Error'') (lit ''Encryption failed: '' @ exn_text e) a"
  | (s) tok bsp bg bh bst where
      "encrypt_species lib (cipher a) rnd (strip (species_entry a)) = Inr tok"
      "encode tok = Inr bsp" "encode (strip (genus_entry a)) = Inr bg"
      "encode (strip (habitat_entry a)) = Inr bh" "encode (status_combobox a) = Inr bst"
      "a' = (showinfo (lit ''Success'') (lit ''Frog species record saved successfully!'')
                    (a\<lparr>conn := append_row (conn a) bsp bg bh bst\<rparr>))
                 \<lparr>species_entry := [], genus_entry := [], habitat_entry := [],
                  status_combobox := lit ''Least Concern''\<rparr>"
    by blast
  then show ?thesis
  proof cases
    case v
    then show ?thesis by (simp add: showerror_def)
  next
    case e
    then show ?thesis by (simp add: showerror_def)
  next
    case s
    have "conn a' = append_row (conn a) bsp bg bh bst" using s(6) by (simp add: showinfo_def)
    with s(1-5) show ?thesis by blast
  qed
qed

lemma save_record_cipher: "save_record lib rnd a = Inr a' \<Longrightarrow> cipher a' = cipher a"
  by (drule save_record_Inr) (auto simp: showerror_def showinfo_def)

section \<open>Fetching\<close>

lemma fetch_rows_append:
  "fetch_rows (xs @ ys) =
     (case fetch_rows xs of Inl e \<Rightarrow> Inl e | Inr u \<Rightarrow>
      case fetch_rows ys of Inl e \<Rightarrow> Inl e | Inr v \<Rightarrow> Inr (u @ v))"
  by (induction xs) (auto split: sum.splits)





lemma readable_iff: "readable t \<longleftrightarrow> (\<exists>v. fetchall t = Inr v)"
  by (cases "fetchall t") (simp_all add: readable_def)




section \<open>The instance keeps the promise of the library\<close>




section \<open>Saving, then viewing\<close>

lemma toy_tag_toy_key: "toy_tag toy_key = 40"
  by code_simp

lemma toy_tag_other_key: "toy_tag other_key = 83"
  by code_simp

lemma decode_bad_start:
  "128 \<le> b \<Longrightarrow> b < 194 \<or> 245 \<le> b \<Longrightarrow>
   decode (b # bs) = Inl (Exn ''UnicodeDecodeError'' (lit ''invalid utf-8''))"
  by (subst decode.simps) (simp add: utf8_next_range_bad)

lemmas toy_run =
  save_record_def save_then_view_def view_registry_def view_row_def decrypt_species_def
  encrypt_species_def execute_insert_def append_row_def largest_id_def
  max_rowid_def showinfo_def showerror_def Let_def fill_def fresh_app_def strip_def
  isspace_def lit_def toy_fernet_def utf8_char_def decode_Cons_ascii decode_Nil
  toy_tag_toy_key toy_tag_other_key encodable_def fetchall_def fetch_row_def
  column_text_def readable_def with_rows_def







section \<open>Validation, encryption failure and stripping\<close>

text \<open>
  C3. When one of the four fields is empty, \<open>save_record\<close> returns after the error dialog
  \<open>All fields are required!\<close>: the connection, hence the table and the number of its
  rows, is the one it started with.
\<close>

theorem save_record_rejects_empty_field:
  assumes "species_entry a = [] \<or> genus_entry a = [] \<or> habitat_entry a = []
           \<or> status_combobox a = []"
  shows "\<exists>a'. save_record lib rnd a = Inr a' \<and> conn a' = conn a
           \<and> length (rows (conn a')) = length (rows (conn a))
           \<and> dialogs a' = dialogs a
                @ [Showerror (lit ''Error'') (lit ''All fields are required!'')]"
proof -
  from assms have "strip (species_entry a) = [] \<or> strip (genus_entry a) = []
           \<or> strip (habitat_entry a) = [] \<or> status_combobox a = []"
    by (auto simp: strip_Nil)
  then have "save_record lib rnd a
      = Inr (showerror (lit ''Error'') (lit ''All fields are required!'') a)"
    by (rule save_record_invalid)
  then show ?thesis by (simp add: showerror_def)
qed

theorem save_record_rejects_empty_field_witness:
  "genus_entry (fill (lit ''Rana'') [] (lit ''Pond'') (lit ''Least Concern'') fresh_app) = []
   \<and> (\<exists>a'. save_record toy_fernet []
               (fill (lit ''Rana'') [] (lit ''Pond'') (lit ''Least Concern'') fresh_app) = Inr a'
          \<and> conn a' = conn fresh_app \<and> length (rows (conn a')) = 0
          \<and> dialogs a' = [Showerror (lit ''Error'') (lit ''All fields are required!'')])"
proof -
  let ?a = "fill (lit ''Rana'') [] (lit ''Pond'') (lit ''Least Concern'') fresh_app"
  have g: "genus_entry ?a = []" by (simp add: fill_def)
  then have h: "species_entry ?a = [] \<or> genus_entry ?a = [] \<or> habitat_entry ?a = []
           \<or> status_combobox ?a = []" by simp
  show ?thesis
    using g save_record_rejects_empty_field [OF h, of toy_fernet "[]"]
    by (simp add: fill_def fresh_app_def)
qed

lemma encrypt_species_library_failure:
  "encode s = Inr p \<Longrightarrow> encrypt lib c rnd p = Inl e \<Longrightarrow> encrypt_species lib c rnd s = Inl e"
  by (simp add: encrypt_species_def)

text \<open>
  C9. When the fields are filled and encrypting the species name raises (in
  \<open>encode\<close>, in the library's \<open>encrypt\<close> or in \<open>decode\<close>), \<open>save_record\<close> returns after
  the error dialog \<open>Encryption failed: ...\<close> with the text of the exception, and the
  connection is the one it started with: no row is written.
\<close>

theorem save_record_aborts_on_encryption_failure:
  assumes "strip (species_entry a) \<noteq> []" "strip (genus_entry a) \<noteq> []"
    "strip (habitat_entry a) \<noteq> []" "status_combobox a \<noteq> []"
    and "encrypt_species lib (cipher a) rnd (strip (species_entry a)) = Inl e"
  shows "\<exists>a'. save_record lib rnd a = Inr a' \<and> conn a' = conn a
           \<and> dialogs a' = dialogs a
                @ [Showerror (lit ''Error'') (lit ''Encryption failed: '' @ exn_text e)]"
  using save_record_encrypt_failed [OF assms] by (simp add: showerror_def)

theorem save_record_aborts_on_encryption_failure_witness:
  "\<exists>e a'. encrypt_species toy_fernet toy_key [] [0xD83D] = Inl e
      \<and> exn_class e = ''UnicodeEncodeError''
      \<and> save_record toy_fernet []
           (fill [0xD83D] (lit ''Rana'') (lit ''Pond'') (lit ''Least Concern'') fresh_app)
         = Inr a'
      \<and> conn a' = conn fresh_app
      \<and> dialogs a' = [Showerror (lit ''Error'') (lit ''Encryption failed: '' @ exn_text e)]"
proof -
  let ?a = "fill [0xD83D] (lit ''Rana'') (lit ''Pond'') (lit ''Least Concern'') fresh_app"
  have ne: "strip (species_entry ?a) \<noteq> []" "strip (genus_entry ?a) \<noteq> []"
    "strip (habitat_entry ?a) \<noteq> []" "status_combobox ?a \<noteq> []"
    by (simp_all add: toy_run)
  obtain e where e: "encrypt_species toy_fernet toy_key [] [0xD83D] = Inl e"
    and c: "exn_class e = ''UnicodeEncodeError''"
    by (simp add: toy_run)
  have e': "encrypt_species toy_fernet (cipher ?a) [] (strip (species_entry ?a)) = Inl e"
    using e by (simp add: fill_def fresh_app_def strip_def isspace_def)
  obtain a' where "save_record toy_fernet [] ?a = Inr a'" "conn a' = conn ?a"
    "dialogs a' = dialogs ?a
       @ [Showerror (lit ''Error'') (lit ''Encryption failed: '' @ exn_text e)]"
    using save_record_aborts_on_encryption_failure [OF ne e'] by blast
  then have "save_record toy_fernet [] ?a = Inr a' \<and> conn a' = conn fresh_app
      \<and> dialogs a' = [Showerror (lit ''Error'') (lit ''Encryption failed: '' @ exn_text e)]"
    by (simp add: fill_def fresh_app_def)
  with e c show ?thesis by blast
qed

text \<open>
  C10. The species name, the genus and the habitat are stripped before they are checked
  and stored: a field of whitespace only is rejected like an empty one, and the row a
  save writes holds, and gives back when it is fetched, the stripped genus and habitat
  and the token of the stripped species name. The status is stored as the combobox
  gives it.
\<close>

theorem save_record_strips_fields:
  "(list_all isspace (species_entry a) \<or> list_all isspace (genus_entry a)
      \<or> list_all isspace (habitat_entry a)
     \<longrightarrow> save_record lib rnd a
         = Inr (showerror (lit ''Error'') (lit ''All fields are required!'') a))
   \<and> (\<forall>a'. save_record lib rnd a = Inr a' \<and> conn a' \<noteq> conn a
         \<longrightarrow> (\<exists>r tok. rows (conn a') = rows (conn a) @ [r]
                  \<and> encrypt_species lib (cipher a) rnd (strip (species_entry a)) = Inr tok
                  \<and> encode tok = Inr (species_name r)
                  \<and> encode (strip (genus_entry a)) = Inr (genus r)
                  \<and> encode (strip (habitat_entry a)) = Inr (habitat r)
                  \<and> encode (status_combobox a) = Inr (conservation_status r)
                  \<and> fetch_row r = Inr (row_id r, tok, strip (genus_entry a),
                                        strip (habitat_entry a), status_combobox a)))"
proof (intro conjI impI allI)
  assume "list_all isspace (species_entry a) \<or> list_all isspace (genus_entry a)
      \<or> list_all isspace (habitat_entry a)"
  then have "strip (species_entry a) = [] \<or> strip (genus_entry a) = []
           \<or> strip (habitat_entry a) = [] \<or> status_combobox a = []"
    by (auto simp: strip_eq_Nil_iff)
  then show "save_record lib rnd a
      = Inr (showerror (lit ''Error'') (lit ''All fields are required!'') a)"
    by (rule save_record_invalid)
next
  fix a'
  assume h: "save_record lib rnd a = Inr a' \<and> conn a' \<noteq> conn a"
  then obtain tok bsp bg bh bst where
    e: "encrypt_species lib (cipher a) rnd (strip (species_entry a)) = Inr tok"
    and enc: "encode tok = Inr bsp" "encode (strip (genus_entry a)) = Inr bg"
      "encode (strip (habitat_entry a)) = Inr bh" "encode (status_combobox a) = Inr bst"
    and c: "conn a' = append_row (conn a) bsp bg bh bst"
    using save_record_conn [of lib rnd a a'] by blast
  define r where "r = \<lparr>row_id = largest_id (conn a) + 1, species_name = bsp, genus = bg,
                        habitat = bh, conservation_status = bst\<rparr>"
  have "rows (conn a') = rows (conn a) @ [r]" by (simp add: c append_row_def r_def)
  moreover have "fetch_row r = Inr (row_id r, tok, strip (genus_entry a),
                                    strip (habitat_entry a), status_combobox a)"
    using fetch_row_encoded [OF enc] by (simp add: r_def)
  moreover have "encode tok = Inr (species_name r)"
    "encode (strip (genus_entry a)) = Inr (genus r)"
    "encode (strip (habitat_entry a)) = Inr (habitat r)"
    "encode (status_combobox a) = Inr (conservation_status r)"
    using enc by (simp_all add: r_def)
  ultimately show "\<exists>r tok. rows (conn a') = rows (conn a) @ [r]
                  \<and> encrypt_species lib (cipher a) rnd (strip (species_entry a)) = Inr tok
                  \<and> encode tok = Inr (species_name r)
                  \<and> encode (strip (genus_entry a)) = Inr (genus r)
                  \<and> encode (strip (habitat_entry a)) = Inr (habitat r)
                  \<and> encode (status_combobox a) = Inr (conservation_status r)
                  \<and> fetch_row r = Inr (row_id r, tok, strip (genus_entry a),
                                        strip (habitat_entry a), status_combobox a)"
    using e by blast
qed

theorem save_record_strips_fields_witness:
  "list_all isspace (genus_entry (fill (lit ''Rana'') (lit ''  '') (lit ''Pond'')
                                   (lit ''Least Concern'') fresh_app))
   \<and> save_record toy_fernet []
       (fill (lit ''Rana'') (lit ''  '') (lit ''Pond'') (lit ''Least Concern'') fresh_app)
     = Inr (showerror (lit ''Error'') (lit ''All fields are required!'')
             (fill (lit ''Rana'') (lit ''  '') (lit ''Pond'') (lit ''Least Concern'')
                fresh_app))
   \<and> (\<exists>a' r tok. save_record toy_fernet []
                 (fill (lit '' Rana'') (lit ''Rana '') (lit '' Pond '') (lit ''Extinct'')
                    fresh_app) = Inr a'
            \<and> rows (conn a') = [r]
            \<and> encrypt_species toy_fernet toy_key [] (lit ''Rana'') = Inr tok
            \<and> fetch_row r = Inr (row_id r, tok, lit ''Rana'', lit ''Pond'', lit ''Extinct''))"
proof -
  let ?a = "fill (lit ''Rana'') (lit ''  '') (lit ''Pond'') (lit ''Least Concern'') fresh_app"
  let ?b = "fill (lit '' Rana'') (lit ''Rana '') (lit '' Pond '') (lit ''Extinct'') fresh_app"
  have sp: "list_all isspace (genus_entry ?a)" by (simp add: toy_run)
  then have 1: "save_record toy_fernet [] ?a
      = Inr (showerror (lit ''Error'') (lit ''All fields are required!'') ?a)"
    using save_record_strips_fields [of ?a toy_fernet "[]"] by blast
  obtain b' where b': "save_record toy_fernet [] ?b = Inr b'" and ne: "conn b' \<noteq> conn ?b"
    by (simp add: toy_run)
  then obtain r tok where "rows (conn b') = rows (conn ?b) @ [r]"
    "encrypt_species toy_fernet (cipher ?b) [] (strip (species_entry ?b)) = Inr tok"
    "fetch_row r = Inr (row_id r, tok, strip (genus_entry ?b), strip (habitat_entry ?b),
                        status_combobox ?b)"
    using save_record_strips_fields [of ?b toy_fernet "[]"] by blast
  then have "rows (conn b') = [r]"
    "encrypt_species toy_fernet toy_key [] (lit ''Rana'') = Inr tok"
    "fetch_row r = Inr (row_id r, tok, lit ''Rana'', lit ''Pond'', lit ''Extinct'')"
    by (simp_all add: fill_def fresh_app_def strip_def isspace_def lit_def)
  with b' sp 1 show ?thesis by blast
qed

section \<open>The status, and rows that do not decrypt\<close>

text \<open>
  C7, as the code has it. Of the conservation status \<open>save_record\<close> checks only that it is
  not empty: an empty status is rejected before a row is written, and any other status,
  one of the six values of the combobox or not, is stored as it is. After a save the
  combobox is set back to \<open>Least Concern\<close>, so a status that was one of the six values
  is stored as one of them and leaves one of them in the combobox.
\<close>

theorem save_record_stores_any_status:
  "(status_combobox a = []
     \<longrightarrow> save_record lib rnd a
         = Inr (showerror (lit ''Error'') (lit ''All fields are required!'') a))
   \<and> (strip (species_entry a) \<noteq> [] \<and> strip (genus_entry a) \<noteq> []
       \<and> strip (habitat_entry a) \<noteq> [] \<and> status_combobox a \<noteq> []
       \<and> encrypt_species lib (cipher a) rnd (strip (species_entry a)) = Inr tok
       \<and> encodable (strip (genus_entry a)) \<and> encodable (strip (habitat_entry a))
       \<and> encodable (status_combobox a) \<and> largest_id (conn a) < max_rowid
     \<longrightarrow> (\<exists>a' r. save_record lib rnd a = Inr a'
            \<and> rows (conn a') = rows (conn a) @ [r]
            \<and> encode (status_combobox a) = Inr (conservation_status r)
            \<and> fetch_row r = Inr (row_id r, tok, strip (genus_entry a),
                                  strip (habitat_entry a), status_combobox a)
            \<and> status_combobox a' = lit ''Least Concern''
            \<and> status_combobox a' \<in> set status_values))"
proof (intro conjI impI)
  assume "status_combobox a = []"
  then show "save_record lib rnd a
      = Inr (showerror (lit ''Error'') (lit ''All fields are required!'') a)"
    by (simp add: save_record_invalid)
next
  assume h: "strip (species_entry a) \<noteq> [] \<and> strip (genus_entry a) \<noteq> []
       \<and> strip (habitat_entry a) \<noteq> [] \<and> status_combobox a \<noteq> []
       \<and> encrypt_species lib (cipher a) rnd (strip (species_entry a)) = Inr tok
       \<and> encodable (strip (genus_entry a)) \<and> encodable (strip (habitat_entry a))
       \<and> encodable (status_combobox a) \<and> largest_id (conn a) < max_rowid"
  then obtain bsp bg bh bst where enc: "encode tok = Inr bsp"
    "encode (strip (genus_entry a)) = Inr bg" "encode (strip (habitat_entry a)) = Inr bh"
    "encode (status_combobox a) = Inr bst"
    and sv: "save_record lib rnd a =
         Inr ((showinfo (lit ''Success'') (lit ''Frog species record saved successfully!'')
                 (a\<lparr>conn := append_row (conn a) bsp bg bh bst\<rparr>))
              \<lparr>species_entry := [], genus_entry := [], habitat_entry := [],
               status_combobox := lit ''Least Concern''\<rparr>)"
    using save_record_saved [of a lib rnd tok] by blast
  define r where "r = \<lparr>row_id = largest_id (conn a) + 1, species_name = bsp, genus = bg,
                        habitat = bh, conservation_status = bst\<rparr>"
  define a' where "a' =
     (showinfo (lit ''Success'') (lit ''Frog species record saved successfully!'')
                 (a\<lparr>conn := append_row (conn a) bsp bg bh bst\<rparr>))
              \<lparr>species_entry := [], genus_entry := [], habitat_entry := [],
               status_combobox := lit ''Least Concern''\<rparr>"
  have "rows (conn a') = rows (conn a) @ [r]"
    by (simp add: a'_def showinfo_def append_row_def r_def)
  moreover have "fetch_row r = Inr (row_id r, tok, strip (genus_entry a),
                                    strip (habitat_entry a), status_combobox a)"
    using fetch_row_encoded [OF enc] by (simp add: r_def)
  moreover have "encode (status_combobox a) = Inr (conservation_status r)"
    using enc(4) by (simp add: r_def)
  moreover have "status_combobox a' = lit ''Least Concern''"
    "status_combobox a' \<in> set status_values"
    by (simp_all add: a'_def status_values_def)
  moreover have "save_record lib rnd a = Inr a'" using sv by (simp add: a'_def)
  ultimately show "\<exists>a' r. save_record lib rnd a = Inr a'
            \<and> rows (conn a') = rows (conn a) @ [r]
            \<and> encode (status_combobox a) = Inr (conservation_status r)
            \<and> fetch_row r = Inr (row_id r, tok, strip (genus_entry a),
                                  strip (habitat_entry a), status_combobox a)
            \<and> status_combobox a' = lit ''Least Concern''
            \<and> status_combobox a' \<in> set status_values"
    by blast
qed

theorem save_record_stores_any_status_witness:
  "lit ''Unknown'' \<notin> set status_values
   \<and> (\<exists>a' r tok. save_record toy_fernet []
                 (fill (lit ''Rana'') (lit ''Rana'') (lit ''Pond'') (lit ''Unknown'') fresh_app)
               = Inr a'
            \<and> rows (conn a') = [r]
            \<and> fetch_row r = Inr (row_id r, tok, lit ''Rana'', lit ''Pond'', lit ''Unknown'')
            \<and> status_combobox a' = lit ''Least Concern'')
   \<and> save_record toy_fernet []
        (fill (lit ''Rana'') (lit ''Rana'') (lit ''Pond'') [] fresh_app)
      = Inr (showerror (lit ''Error'') (lit ''All fields are required!'')
              (fill (lit ''Rana'') (lit ''Rana'') (lit ''Pond'') [] fresh_app))"
proof -
  let ?a = "fill (lit ''Rana'') (lit ''Rana'') (lit ''Pond'') (lit ''Unknown'') fresh_app"
  let ?b = "fill (lit ''Rana'') (lit ''Rana'') (lit ''Pond'') [] fresh_app"
  have u: "lit ''Unknown'' \<notin> set status_values" by (simp add: status_values_def lit_def)
  have "status_combobox ?b = []" by (simp add: fill_def)
  then have b: "save_record toy_fernet [] ?b
      = Inr (showerror (lit ''Error'') (lit ''All fields are required!'') ?b)"
    using save_record_stores_any_status [of ?b toy_fernet "[]"] by blast
  obtain tok where tok: "encrypt_species toy_fernet (cipher ?a) [] (strip (species_entry ?a))
      = Inr tok"
    by (simp add: toy_run)
  have "strip (species_entry ?a) \<noteq> [] \<and> strip (genus_entry ?a) \<noteq> []
       \<and> strip (habitat_entry ?a) \<noteq> [] \<and> status_combobox ?a \<noteq> []
       \<and> encodable (strip (genus_entry ?a)) \<and> encodable (strip (habitat_entry ?a))
       \<and> encodable (status_combobox ?a) \<and> largest_id (conn ?a) < max_rowid"
    by (simp add: toy_run)
  with tok obtain a' r where "save_record toy_fernet [] ?a = Inr a'"
    "rows (conn a') = rows (conn ?a) @ [r]"
    "fetch_row r = Inr (row_id r, tok, strip (genus_entry ?a), strip (habitat_entry ?a),
                        status_combobox ?a)"
    "status_combobox a' = lit ''Least Concern''"
    using save_record_stores_any_status [of ?a toy_fernet "[]" tok] by blast
  then have "save_record toy_fernet [] ?a = Inr a' \<and> rows (conn a') = [r]
      \<and> fetch_row r = Inr (row_id r, tok, lit ''Rana'', lit ''Pond'', lit ''Unknown'')
      \<and> status_combobox a' = lit ''Least Concern''"
    by (simp add: fill_def fresh_app_def strip_def isspace_def lit_def)
  with u b show ?thesis by blast
qed

text \<open>
  C7 as stated fails: the status \<open>Unknown\<close> is none of the six values, and the record
  is saved and listed with it.
\<close>

theorem unlisted_status_is_saved:
  "lit ''Unknown'' \<notin> set status_values
   \<and> save_then_view toy_fernet []
       (fill (lit ''Rana'') (lit ''Rana'') (lit ''Pond'') (lit ''Unknown'') fresh_app)
     = Inr [(1, lit ''Rana'', lit ''Rana'', lit ''Pond'', lit ''Unknown'')]"
  by (simp add: toy_run status_values_def)

lemma fetch_rows_split:
  assumes "fetch_rows (before @ r # after) = Inr v"
  shows "\<exists>vb x va. fetch_rows before = Inr vb \<and> fetch_row r = Inr x
           \<and> fetch_rows after = Inr va \<and> v = vb @ x # va"
  using assms by (auto simp: fetch_rows_append split: sum.splits)

lemma view_registry_with_rows:
  "view_registry lib (with_rows a rs) =
     (case fetch_rows rs of Inl e \<Rightarrow> Inl e | Inr f \<Rightarrow> Inr (map (view_row lib (cipher a)) f))"
  by (simp add: view_registry_def with_rows_def fetchall_def split: sum.splits)

text \<open>
  C2, as the code has it. On a table that can be fetched (every text cell is valid
  UTF-8, as in every row the program writes), a row whose species name does not decrypt
  (the \<open>try\<close> block raises: the key is another one, or the token is not one) is listed
  with the marker \<open>Decryption Error\<close> in place of the species name and with its own id,
  genus, habitat and status; the rows before it and after it are listed as they would be
  without it.
\<close>

theorem view_registry_isolates_decryption_failure:
  assumes "rows (conn a) = before @ r # after"
    and "readable (conn a)"
    and "decode (species_name r) = Inr ct"
    and "decrypt_species lib (cipher a) ct = Inl e"
  shows "\<exists>vb va g h st.
           view_registry lib (with_rows a before) = Inr vb
           \<and> view_registry lib (with_rows a after) = Inr va
           \<and> decode (genus r) = Inr g \<and> decode (habitat r) = Inr h
           \<and> decode (conservation_status r) = Inr st
           \<and> view_registry lib a
               = Inr (vb @ (row_id r, lit ''Decryption Error'', g, h, st) # va)"
proof -
  from assms(2) obtain v where "fetch_rows (before @ r # after) = Inr v"
    by (auto simp: readable_iff fetchall_def assms(1))
  then obtain fb x fa where fb: "fetch_rows before = Inr fb" and x: "fetch_row r = Inr x"
    and fa: "fetch_rows after = Inr fa" and v: "v = fb @ x # fa"
    using fetch_rows_split by blast
  from x assms(3) obtain g h st where cells: "decode (genus r) = Inr g"
    "decode (habitat r) = Inr h" "decode (conservation_status r) = Inr st"
    and x': "x = (row_id r, ct, g, h, st)"
    by (auto simp: fetch_row_def column_text_def split: sum.splits)
  have "view_row lib (cipher a) x = (row_id r, lit ''Decryption Error'', g, h, st)"
    using assms(4) by (simp add: x' view_row_def)
  then have "view_registry lib a
      = Inr (map (view_row lib (cipher a)) fb
             @ (row_id r, lit ''Decryption Error'', g, h, st)
             # map (view_row lib (cipher a)) fa)"
    using fb x fa
    by (simp add: view_registry_def fetchall_def assms(1) fetch_rows_append)
  moreover have "view_registry lib (with_rows a before)
      = Inr (map (view_row lib (cipher a)) fb)"
    using fb by (simp add: view_registry_with_rows)
  moreover have "view_registry lib (with_rows a after)
      = Inr (map (view_row lib (cipher a)) fa)"
    using fa by (simp add: view_registry_with_rows)
  ultimately show ?thesis using cells by blast
qed

theorem view_registry_isolates_decryption_failure_witness:
  "encrypt_species toy_fernet toy_key [7] (lit ''Rana'') = Inr (lit ''BH@GEBFAFNFA'')
   \<and> decrypt_species toy_fernet other_key (lit ''BH@GEBFAFNFA'') = Inl invalid_token
   \<and> decrypt_species toy_fernet other_key (lit ''EC@@DHGIFLF'') = Inl invalid_token
   \<and> readable (conn swapped_app)
   \<and> view_registry toy_fernet swapped_app =
       Inr [(1, lit ''Hyla'', lit ''Hyla'', lit ''Trees'', lit ''Least Concern''),
            (2, lit ''Decryption Error'', lit ''Rana'', lit ''Pond'', lit ''Vulnerable''),
            (3, lit ''Hyla'', lit ''Hyla'', lit ''Reeds'', lit ''Extinct'')]"
proof -
  let ?r1 = "\<lparr>row_id = 1, species_name = lit ''EC@@DHGIFLFA'', genus = lit ''Hyla'',
              habitat = lit ''Trees'', conservation_status = lit ''Least Concern''\<rparr>"
  let ?r2 = "\<lparr>row_id = 2, species_name = lit ''BH@GEBFAFNFA'', genus = lit ''Rana'',
              habitat = lit ''Pond'', conservation_status = lit ''Vulnerable''\<rparr>"
  let ?r3 = "\<lparr>row_id = 3, species_name = lit ''EC@@DHGIFLFA'', genus = lit ''Hyla'',
              habitat = lit ''Reeds'', conservation_status = lit ''Extinct''\<rparr>"
  have w: "encrypt_species toy_fernet toy_key [7] (lit ''Rana'') = Inr (lit ''BH@GEBFAFNFA'')"
    by (simp add: toy_run)
  have d: "decrypt_species toy_fernet other_key (lit ''BH@GEBFAFNFA'') = Inl invalid_token"
    by (simp add: toy_run)
  have t: "decrypt_species toy_fernet other_key (lit ''EC@@DHGIFLF'') = Inl invalid_token"
    by (simp add: toy_run)
  have rs: "rows (conn swapped_app) = [?r1] @ ?r2 # [?r3]" by (simp add: swapped_app_def)
  have rd: "readable (conn swapped_app)" by (simp add: toy_run swapped_app_def)
  have ct: "decode (species_name ?r2) = Inr (lit ''BH@GEBFAFNFA'')"
    by (simp add: toy_run)
  have d': "decrypt_species toy_fernet (cipher swapped_app) (lit ''BH@GEBFAFNFA'')
      = Inl invalid_token"
    using d by (simp add: swapped_app_def)
  obtain vb va g h st where
    vb: "view_registry toy_fernet (with_rows swapped_app [?r1]) = Inr vb"
    and va: "view_registry toy_fernet (with_rows swapped_app [?r3]) = Inr va"
    and cells: "decode (genus ?r2) = Inr g" "decode (habitat ?r2) = Inr h"
      "decode (conservation_status ?r2) = Inr st"
    and all: "view_registry toy_fernet swapped_app
               = Inr (vb @ (row_id ?r2, lit ''Decryption Error'', g, h, st) # va)"
    using view_registry_isolates_decryption_failure [OF rs rd ct d'] by blast
  have "vb = [(1, lit ''Hyla'', lit ''Hyla'', lit ''Trees'', lit ''Least Concern'')]"
    using vb by (simp add: toy_run swapped_app_def)
  moreover have "va = [(3, lit ''Hyla'', lit ''Hyla'', lit ''Reeds'', lit ''Extinct'')]"
    using va by (simp add: toy_run swapped_app_def)
  moreover have "g = lit ''Rana''" "h = lit ''Pond''" "st = lit ''Vulnerable''"
    using cells by (simp_all add: toy_run)
  ultimately have "view_registry toy_fernet swapped_app =
       Inr [(1, lit ''Hyla'', lit ''Hyla'', lit ''Trees'', lit ''Least Concern''),
            (2, lit ''Decryption Error'', lit ''Rana'', lit ''Pond'', lit ''Vulnerable''),
            (3, lit ''Hyla'', lit ''Hyla'', lit ''Reeds'', lit ''Extinct'')]"
    using all by simp
  with w d t rd show ?thesis by blast
qed

text \<open>
  C2 as stated fails on a ciphertext corrupted into bytes that are not UTF-8: the fetch,
  which is outside the \<open>try\<close>, raises, and no row is listed, neither the damaged one with
  the marker nor the two others.
\<close>

theorem damaged_cell_aborts_listing:
  "rows (conn damaged_app) =
     [\<lparr>row_id = 1, species_name = lit ''EC@@DHGIFLFA'', genus = lit ''Hyla'',
        habitat = lit ''Trees'', conservation_status = lit ''Least Concern''\<rparr>,
      \<lparr>row_id = 2, species_name = [0xFF, 0xFE], genus = lit ''Rana'',
        habitat = lit ''Pond'', conservation_status = lit ''Vulnerable''\<rparr>,
      \<lparr>row_id = 3, species_name = lit ''EC@@DHGIFLFA'', genus = lit ''Hyla'',
        habitat = lit ''Reeds'', conservation_status = lit ''Extinct''\<rparr>]
   \<and> view_registry toy_fernet damaged_app
     = Inl (Exn ''OperationalError'' (lit ''Could not decode to UTF-8 column''))"
  by (simp add: damaged_app_def toy_run swapped_app_def decode_bad_start)

section \<open>Row identifiers and the order of the listing\<close>

lemma fold_max_bounded: "\<forall>x\<in>set xs. x \<le> s \<Longrightarrow> fold max xs s = (s::int)"
  by (induction xs) (simp_all add: max_absorb2)

lemma largest_id_append_row: "largest_id (append_row t sp g h st) = largest_id t + 1"
proof -
  define n where "n = largest_id t + 1"
  have "\<forall>x\<in>set (map row_id (rows t)). x \<le> n"
    using largest_id_ge_row [of _ t] by (fastforce simp: n_def)
  then have f: "fold max (map row_id (rows t)) n = n"
    by (rule fold_max_bounded)
  have "largest_id \<lparr>rows = rows t @ [\<lparr>row_id = n, species_name = sp, genus = g, habitat = h,
                                         conservation_status = st\<rparr>], seq = n\<rparr> = n"
    by (simp add: largest_id_def f)
  then show ?thesis by (simp add: append_row_def n_def)
qed

text \<open>What a run of saves adds to the table.\<close>

lemma save_records_rows:
  "\<exists>new. rows (conn (save_records lib a inputs)) = rows (conn a) @ new
     \<and> sorted_wrt (<) (map row_id new)
     \<and> (\<forall>r\<in>set new. largest_id (conn a) < row_id r)"
proof (induction inputs arbitrary: a)
  case Nil
  show ?case by simp
next
  case (Cons i inputs)
  obtain rnd sp g h st where i: "i = (rnd, sp, g, h, st)" by (cases i)
  define filled where "filled = fill sp g h st a"
  have cf: "conn filled = conn a" by (simp add: filled_def fill_def)
  show ?case
  proof (cases "save_record lib rnd filled")
    case (Inl e)
    then have "save_records lib a (i # inputs) = save_records lib filled inputs"
      by (simp add: i filled_def)
    then show ?thesis using Cons.IH [of filled] cf by simp
  next
    case (Inr a')
    then have run: "save_records lib a (i # inputs) = save_records lib a' inputs"
      by (simp add: i filled_def)
    obtain new where new: "rows (conn (save_records lib a' inputs)) = rows (conn a') @ new"
      "sorted_wrt (<) (map row_id new)" "\<forall>r\<in>set new. largest_id (conn a') < row_id r"
      using Cons.IH [of a'] by blast
    from save_record_conn [OF Inr] show ?thesis
    proof
      assume "conn a' = conn filled"
      then show ?thesis using new run cf by auto
    next
      assume "\<exists>tok bsp bg bh bst.
                encrypt_species lib (cipher filled) rnd (strip (species_entry filled)) = Inr tok
                \<and> encode tok = Inr bsp \<and> encode (strip (genus_entry filled)) = Inr bg
                \<and> encode (strip (habitat_entry filled)) = Inr bh
                \<and> encode (status_combobox filled) = Inr bst
                \<and> conn a' = append_row (conn filled) bsp bg bh bst"
      then obtain bsp bg bh bst where c': "conn a' = append_row (conn a) bsp bg bh bst"
        using cf by auto
      define r where "r = last (rows (conn a'))"
      have rows': "rows (conn a') = rows (conn a) @ [r]" and rid: "row_id r = largest_id (conn a) + 1"
        by (simp_all add: r_def c' append_row_def)
      have l': "largest_id (conn a') = largest_id (conn a) + 1"
        by (simp add: c' largest_id_append_row)
      have "rows (conn (save_records lib a (i # inputs))) = rows (conn a) @ (r # new)"
        using run new(1) rows' by simp
      moreover have "sorted_wrt (<) (map row_id (r # new))"
        using new(2,3) rid l' by auto
      moreover have "\<forall>x\<in>set (r # new). largest_id (conn a) < row_id x"
        using new(3) rid l' by auto
      ultimately show ?thesis by blast
    qed
  qed
qed

text \<open>
  C5. Whatever the table holds and whatever is submitted, the rows that a run of saves
  adds come after the rows that were there, in the order of the saves, and their ids are
  strictly increasing, hence distinct, and greater than every id the table holds or has
  ever held.
\<close>

theorem saved_ids_strictly_increasing:
  "\<exists>new. rows (conn (save_records lib a inputs)) = rows (conn a) @ new
     \<and> sorted_wrt (<) (map row_id new) \<and> distinct (map row_id new)
     \<and> (\<forall>r\<in>set new. seq (conn a) < row_id r
                       \<and> (\<forall>old\<in>set (rows (conn a)). row_id old < row_id r))"
proof -
  obtain new where new: "rows (conn (save_records lib a inputs)) = rows (conn a) @ new"
    "sorted_wrt (<) (map row_id new)" "\<forall>r\<in>set new. largest_id (conn a) < row_id r"
    using save_records_rows [of lib a inputs] by blast
  have "distinct (map row_id new)" using new(2) by (simp add: strict_sorted_iff)
  moreover have "seq (conn a) < row_id r \<and> (\<forall>old\<in>set (rows (conn a)). row_id old < row_id r)"
    if "r \<in> set new" for r
  proof -
    have l: "largest_id (conn a) < row_id r" using new(3) that by blast
    have "seq (conn a) < row_id r" using l largest_id_ge_seq [of "conn a"] by linarith
    moreover have "row_id old < row_id r" if "old \<in> set (rows (conn a))" for old
      using l largest_id_ge_row [OF that] by linarith
    ultimately show ?thesis by blast
  qed
  ultimately show ?thesis using new(1,2) by blast
qed

theorem saved_ids_strictly_increasing_witness:
  "\<exists>new. rows (conn (save_records toy_fernet (fresh_app\<lparr>conn := \<lparr>rows = [], seq = 7\<rparr>\<rparr>)
                       [([1], lit ''Rana'', lit ''Rana'', lit ''Pond'', lit ''Extinct''),
                        ([2], lit ''Hyla'', lit '' '', lit ''Trees'', lit ''Extinct''),
                        ([3], lit ''Bufo'', lit ''Bufo'', lit ''Heath'', lit ''Vulnerable'')]))
          = new
     \<and> map row_id new = [8, 9]
     \<and> sorted_wrt (<) (map row_id new) \<and> distinct (map row_id new)"
proof -
  define a where "a = fresh_app\<lparr>conn := \<lparr>rows = [], seq = 7\<rparr>\<rparr>"
  define final where "final = save_records toy_fernet a
     [([1], lit ''Rana'', lit ''Rana'', lit ''Pond'', lit ''Extinct''),
      ([2], lit ''Hyla'', lit '' '', lit ''Trees'', lit ''Extinct''),
      ([3], lit ''Bufo'', lit ''Bufo'', lit ''Heath'', lit ''Vulnerable'')]"
  obtain new where new: "rows (conn final) = rows (conn a) @ new"
    and s: "sorted_wrt (<) (map row_id new)" and d: "distinct (map row_id new)"
    unfolding final_def
    using saved_ids_strictly_increasing [of toy_fernet a] by blast
  have "rows (conn a) = []" by (simp add: a_def)
  with new have n: "rows (conn final) = new" by simp
  have "map row_id (rows (conn final)) = [8, 9]"
    unfolding final_def a_def by (simp add: toy_run)
  with n s d have "rows (conn final) = new \<and> map row_id new = [8, 9]
     \<and> sorted_wrt (<) (map row_id new) \<and> distinct (map row_id new)" by simp
  then show ?thesis unfolding final_def a_def by (rule exI)
qed




end
